theory Spec2Isabelle
  imports Complex_Main
begin

section \<open>Python values and exceptions\<close>

text \<open>
  The exceptions the modelled code raises. Each carries its message, but for
  \<open>KeyError\<close>, \<open>AttributeError\<close>, \<open>UnboundLocalError\<close> and \<open>FileNotFoundError\<close>,
  which carry the key, the attribute, the variable and the file name. A function that
  can raise returns \<open>error + 'a\<close>, with \<open>Inl\<close> for the exception.
\<close>

datatype error =
    NotImplementedError string
  | ValueError string
  | TypeError string
  | KeyError string
  | AttributeError string
  | UnboundLocalError string
  | FileNotFoundError string
  | HipercamError string
  | OutputConflictError string

text \<open>\<open>str.startswith\<close>.\<close>

definition startswith :: "string \<Rightarrow> string \<Rightarrow> bool" where
  "startswith s p = (take (length p) s = p)"

text \<open>\<open>str.endswith\<close>.\<close>

definition endswith :: "string \<Rightarrow> string \<Rightarrow> bool" where
  "endswith s p = (length p \<le> length s \<and> drop (length s - length p) s = p)"

text \<open>
  The Python objects that \<open>get_ccd_pars\<close> hands to \<open>OrderedDict\<close>: strings, integers
  and tuples of such objects.
\<close>

datatype pyval = PStr string | PInt int | PTuple "pyval list"

text \<open>
  Iterating an object: a tuple yields its items, a string its characters (each a string
  of length one), an integer is not iterable.
\<close>

fun py_iter :: "pyval \<Rightarrow> pyval list option" where
  "py_iter (PStr s) = Some (map (\<lambda>c. PStr [c]) s)"
| "py_iter (PTuple xs) = Some xs"
| "py_iter (PInt n) = None"

text \<open>
  An ordered dictionary is the list of its items in insertion order, keys distinct.
  \<open>od_set\<close> is \<open>d[k] = v\<close>: a key already present keeps its place.
\<close>

type_synonym odict = "(pyval \<times> pyval) list"

fun od_set :: "pyval \<Rightarrow> pyval \<Rightarrow> odict \<Rightarrow> odict" where
  "od_set k v [] = [(k, v)]"
| "od_set k v ((k', v') # d) = (if k' = k then (k, v) # d else (k', v') # od_set k v d)"

text \<open>
  \<open>OrderedDict(iterable)\<close>, the constructor of \<open>collections\<close>: every element of
  the iterable is unpacked into a key and a value, so it must itself be iterable and
  yield exactly two objects. One that yields fewer or more raises \<open>ValueError\<close>, one
  that is not iterable \<open>TypeError\<close>, with the messages of CPython.
\<close>

fun od_update :: "odict \<Rightarrow> pyval list \<Rightarrow> error + odict" where
  "od_update d [] = Inr d"
| "od_update d (e # es) =
     (case py_iter e of
        None \<Rightarrow> Inl (TypeError '''int' object is not iterable'')
      | Some [] \<Rightarrow> Inl (ValueError ''need more than 0 values to unpack'')
      | Some [k] \<Rightarrow> Inl (ValueError ''need more than 1 value to unpack'')
      | Some [k, v] \<Rightarrow> od_update (od_set k v d) es
      | Some kv \<Rightarrow> Inl (ValueError ''too many values to unpack (expected 2)''))"

definition OrderedDict :: "pyval \<Rightarrow> error + odict" where
  "OrderedDict arg =
     (case py_iter arg of
        None \<Rightarrow> Inl (TypeError '''int' object is not iterable'')
      | Some es \<Rightarrow> od_update [] es)"

section \<open>Text files and the comment-skipping scan\<close>

text \<open>
  A text file is the list of its lines. The loop
  \<^verbatim>\<open>for fname in it: if not fname.startswith('#'): break\<close> with its \<open>else\<close> branch
  is \<open>skip_comments\<close>: it consumes lines up to and including the first one that does not
  start with \<open>#\<close> and returns that line with the lines left in the iterator, or \<open>None\<close>
  when the iterator is exhausted first (the \<open>else\<close> branch runs).
\<close>

fun skip_comments :: "string list \<Rightarrow> (string \<times> string list) option" where
  "skip_comments [] = None"
| "skip_comments (fname # rest) =
     (if \<not> startswith fname ''#'' then Some (fname, rest) else skip_comments rest)"

section \<open>\<open>spooler.get_ccd_pars\<close>\<close>

text \<open>
  \<open>get_ccd_pars(inst, resource, flist)\<close>. What the function reads from other modules
  is a parameter: \<open>Rhead\<close> gives the \<open>instrument\<close> attribute of \<open>ucam.Rhead(resource)\<close>
  (or the exception the constructor raises), \<open>get_ccd_info\<close> is \<open>ccd.get_ccd_info\<close>,
  \<open>nxtot\<close> and \<open>nytot\<close> are the constants \<open>HCM_NXTOT\<close> and \<open>HCM_NYTOT\<close> of
  \<open>core\<close>, and \<open>files\<close> maps the name of a text file to its lines.
\<close>

text \<open>
  A function that ends in \<open>return e\<close> returns the value of \<open>e\<close>, or raises what \<open>e\<close>
  raises; one that falls off its end returns \<open>None\<close>. The result type \<open>error + 'a option\<close>
  keeps the three apart.
\<close>

definition returns :: "error + 'a \<Rightarrow> error + 'a option" where
  "returns r = (case r of Inl e \<Rightarrow> Inl e | Inr v \<Rightarrow> Inr (Some v))"

definition dims :: "int \<Rightarrow> int \<Rightarrow> pyval" where
  "dims nx ny = PTuple [PInt nx, PInt ny]"

definition get_ccd_pars ::
  "(string \<Rightarrow> error + string) \<Rightarrow> (string \<Rightarrow> error + odict) \<Rightarrow> int \<Rightarrow> int \<Rightarrow>
   (string \<Rightarrow> string list option) \<Rightarrow> string \<Rightarrow> string \<Rightarrow> bool \<Rightarrow>
   error + odict option" where
  "get_ccd_pars Rhead get_ccd_info nxtot nytot files inst resource flist =
     (if inst = ''ULTRA'' then
        if flist then
          Inl (NotImplementedError
            ''spooler.get_ccd_pars: file lists have not been implemented for inst = \"ULTRA\"'')
        else
          (case Rhead resource of
             Inl e \<Rightarrow> Inl e
           | Inr instrument \<Rightarrow>
               if instrument = ''ULTRACAM'' then
                 returns (OrderedDict (PTuple
                   [PTuple [PStr ''r'', dims 1080 1032],
                    PTuple [PStr ''g'', dims 1080 1032],
                    PTuple [PStr ''b'', dims 1080 1032]]))
               else if instrument = ''ULTRASPEC'' then
                 returns (OrderedDict (PTuple [PStr ''1'', dims 1056 1072]))
               else
                 Inl (ValueError (''spooler.get_ccd_pars: instrument '' @ instrument
                   @ '' not supported'')))
      else if inst = ''HIPER'' then
        if flist then
          (case files resource of
             None \<Rightarrow> Inl (FileNotFoundError resource)
           | Some flp \<Rightarrow>
               (case skip_comments flp of
                  None \<Rightarrow> Inl (ValueError
                    (''spooler.get_ccd_keys: failed to find any file names in '' @ resource))
                | Some (fname, rest) \<Rightarrow> returns (get_ccd_info fname)))
        else
          returns (OrderedDict (PTuple
            [PTuple [PStr ''1'', dims nxtot nytot],
             PTuple [PStr ''2'', dims nxtot nytot],
             PTuple [PStr ''3'', dims nxtot nytot],
             PTuple [PStr ''4'', dims nxtot nytot],
             PTuple [PStr ''5'', dims nxtot nytot]]))
      else Inr None)"

section \<open>Frames\<close>

text \<open>
  The data model of \<open>ccd\<close>: an \<open>MCCD\<close> (one exposure) is an ordered dictionary from
  CCD label to \<open>CCD\<close>, a \<open>CCD\<close> an ordered dictionary from window label to window,
  with the flag that \<open>is_data()\<close> reports; a window is a two-dimensional pixel array
  (a list of rows of equal length) with the origin of the window on the chip. Pixel
  values are numbers; the model takes them as reals and leaves the rounding of
  floating-point arithmetic aside. A dictionary is the list of its items, in order.
\<close>

record window =
  llx :: int
  lly :: int
  data :: "real list list"

record ccd =
  windows :: "(string \<times> window) list"
  is_data :: bool

type_synonym mccd = "(string \<times> ccd) list"

text \<open>
  What a spool's \<open>__next__\<close> returns: a frame, or \<open>None\<close> (a server read that found the
  frame not yet there).
\<close>

datatype obj = PyNone | Frame mccd

text \<open>One call of \<open>__next__\<close>: a returned object, or \<open>StopIteration\<close>.\<close>

datatype 'a step = StopIteration | Returned 'a

section \<open>\<open>spooler.HcamListSpool\<close>\<close>

text \<open>
  The files a program can open, and the handles it holds: \<open>files\<close> maps the name of a
  text file to its lines, \<open>handles\<close> lists the names of the files opened and not yet
  closed, in the order of opening.
\<close>

record world =
  files :: "string \<Rightarrow> string list option"
  handles :: "string list"

text \<open>
  The built-in \<open>open(name)\<close>: the file object is an iterator over the lines, here the
  list of the lines not yet read.
\<close>

definition py_open :: "string \<Rightarrow> world \<Rightarrow> (error + string list) \<times> world" where
  "py_open name w =
     (case files w name of
        None \<Rightarrow> (Inl (FileNotFoundError name), w)
      | Some ls \<Rightarrow> (Inr ls, w\<lparr>handles := handles w @ [name]\<rparr>))"

text \<open>
  The spool classes. \<open>'r\<close> is the type of the reader objects \<open>ucam.Rdata\<close> and
  \<open>hcam.Rdata\<close> construct; a \<open>HcamListSpool\<close> holds the name of its list and the open
  file, \<open>self._iter\<close>.
\<close>

datatype 'r spool =
    UcamDiskSpool 'r
  | UcamServSpool 'r
  | HcamListSpool string "string list"
  | HcamDiskSpool 'r

text \<open>
  \<open>HcamListSpool.__next__\<close>: the scan for the next line that is no comment, with
  \<open>StopIteration\<close> from its \<open>else\<close> branch. After the \<open>break\<close> the method ends: there is
  no \<open>return\<close> statement, so the call returns \<open>None\<close>. The second component is the
  file iterator after the call.
\<close>

definition HcamListSpool_next :: "string list \<Rightarrow> obj step \<times> string list" where
  "HcamListSpool_next it =
     (case skip_comments it of
        None \<Rightarrow> (StopIteration, [])
      | Some (fname, rest) \<Rightarrow> (Returned PyNone, rest))"

text \<open>
  \<open>for mccd in spool\<close> over a \<open>HcamListSpool\<close>: the objects the loop variable takes,
  in order, until \<open>StopIteration\<close>.
\<close>

function HcamListSpool_items :: "string list \<Rightarrow> obj list" where
  "HcamListSpool_items it =
     (case HcamListSpool_next it of
        (StopIteration, it') \<Rightarrow> []
      | (Returned x, it') \<Rightarrow> x # HcamListSpool_items it')"
  by pat_completeness auto
termination
proof -
  have shorter: "skip_comments ls = Some (f, r) \<Longrightarrow> length r < length ls" for ls f r
    by (induction ls) (auto split: if_splits)
  show ?thesis
    by (relation "measure length")
       (auto simp: HcamListSpool_next_def split: option.splits dest: shorter)
qed

declare HcamListSpool_items.simps [simp del]

section \<open>\<open>spooler.data_source\<close>\<close>

text \<open>
  The constructors of the spool classes. A constructor runs in a world and returns the
  new object, or raises, with the world it leaves. \<open>ucam.Rdata\<close> and \<open>hcam.Rdata\<close>
  are parameters: \<open>Rdata run first flt server\<close>.
\<close>

type_synonym 'r rdata =
  "string \<Rightarrow> int \<Rightarrow> bool \<Rightarrow> bool \<Rightarrow> world \<Rightarrow> (error + 'r) \<times> world"

definition construct ::
  "('a \<Rightarrow> 'b) \<Rightarrow> (error + 'a) \<times> world \<Rightarrow> (error + 'b) \<times> world" where
  "construct C r = (case r of (Inl e, w) \<Rightarrow> (Inl e, w) | (Inr it, w) \<Rightarrow> (Inr (C it), w))"

definition UcamDiskSpool_init ::
  "'r rdata \<Rightarrow> string \<Rightarrow> int \<Rightarrow> bool \<Rightarrow> world \<Rightarrow> (error + 'r spool) \<times> world" where
  "UcamDiskSpool_init ucam_Rdata run first flt w =
     construct UcamDiskSpool (ucam_Rdata run first flt False w)"

definition UcamServSpool_init ::
  "'r rdata \<Rightarrow> string \<Rightarrow> int \<Rightarrow> bool \<Rightarrow> world \<Rightarrow> (error + 'r spool) \<times> world" where
  "UcamServSpool_init ucam_Rdata run first flt w =
     construct UcamServSpool (ucam_Rdata run first flt True w)"

definition HcamListSpool_init :: "string \<Rightarrow> world \<Rightarrow> (error + 'r spool) \<times> world" where
  "HcamListSpool_init lname w = construct (HcamListSpool lname) (py_open lname w)"

definition HcamDiskSpool_init ::
  "'r rdata \<Rightarrow> string \<Rightarrow> int \<Rightarrow> bool \<Rightarrow> world \<Rightarrow> (error + 'r spool) \<times> world" where
  "HcamDiskSpool_init hcam_Rdata run first flt w =
     construct HcamDiskSpool (hcam_Rdata run first flt False w)"

text \<open>\<open>data_source(inst, resource, flist, server, first, flt)\<close>.\<close>

definition data_source ::
  "'r rdata \<Rightarrow> 'r rdata \<Rightarrow> string \<Rightarrow> string \<Rightarrow> bool \<Rightarrow> bool \<Rightarrow> int \<Rightarrow> bool \<Rightarrow> world \<Rightarrow>
   (error + 'r spool) \<times> world" where
  "data_source ucam_Rdata hcam_Rdata inst resource flist server first flt w =
     (if inst = ''ULTRA'' then
        if flist then
          (Inl (NotImplementedError
             ''spooler.data_source: file lists have not been implemented for inst = \"ULTRA\"''), w)
        else if server then UcamServSpool_init ucam_Rdata resource first flt w
        else UcamDiskSpool_init ucam_Rdata resource first flt w
      else if inst = ''HIPER'' then
        if flist then HcamListSpool_init resource w
        else if server then
          (Inl (NotImplementedError ''spooler.data_source: HiPERCAM server not implemented yet''), w)
        else HcamDiskSpool_init hcam_Rdata resource first flt w
      else
        (Inl (ValueError (''spooler.data_source: inst = '' @ inst @ '' not recognised'')), w))"

section \<open>The numpy operations of \<open>averun\<close>\<close>

text \<open>
  \<open>np.stack(arrs)\<close> joins arrays of one shape along a new first axis; it raises
  \<open>ValueError\<close> for an empty list and for arrays of different shapes. The stack is the
  list of the arrays. Pixel arrays are rectangular with at least one row, so the shape of
  an array is its number of rows and the length of its first row.
\<close>

definition shape :: "real list list \<Rightarrow> nat \<times> nat" where
  "shape a = (length a, case a of [] \<Rightarrow> 0 | r # rs \<Rightarrow> length r)"

definition np_stack :: "real list list list \<Rightarrow> error + real list list list" where
  "np_stack arrs =
     (case arrs of
        [] \<Rightarrow> Inl (ValueError ''need at least one array to stack'')
      | a # as \<Rightarrow>
          if list_all (\<lambda>b. shape b = shape a) as then Inr arrs
          else Inl (ValueError ''all input arrays must have the same shape''))"

text \<open>
  The median of a vector, as numpy documents it: the middle value of a sorted copy when
  the length is odd, the average of the two middle values when it is even.
\<close>

definition median :: "real list \<Rightarrow> real" where
  "median v =
     (let v_sorted = sort v; n = length v in
      if even n then (v_sorted ! (n div 2 - 1) + v_sorted ! (n div 2)) / 2
      else v_sorted ! ((n - 1) div 2))"

text \<open>
  \<open>np.median(arr3d, axis=0)\<close>: the array of the shape of one member of the stack whose
  element \<open>(i, j)\<close> is the median of the elements \<open>(i, j)\<close> of the members.
\<close>

definition np_median_axis0 :: "real list list list \<Rightarrow> real list list" where
  "np_median_axis0 arr3d =
     (case arr3d of
        [] \<Rightarrow> []
      | a # as \<Rightarrow>
          map (\<lambda>i. map (\<lambda>j. median (map (\<lambda>b. b ! i ! j) arr3d)) [0..<length (a ! i)])
            [0..<length a])"

section \<open>\<open>hang_about\<close>\<close>

text \<open>
  Modelled from the spec: \<open>hcam.hang_about(mccd, twait, tmax, total_time)\<close>, which
  \<open>averun\<close> calls and whose definition is not among the sources. Section 4.3 of the
  specification gives its three outcomes: a frame resets the time waited to 0 and is
  passed on; \<open>None\<close> with \<open>total_time + twait > tmax\<close> gives up; \<open>None\<close> within the
  bound sleeps for \<open>twait\<close> seconds, adds them to the time waited and asks for another
  read. The result is \<open>(give_up, try_again, total_time)\<close>.
\<close>

definition hang_about :: "obj \<Rightarrow> real \<Rightarrow> real \<Rightarrow> real \<Rightarrow> bool \<times> bool \<times> real" where
  "hang_about mccd twait tmax total_time =
     (case mccd of
        Frame m \<Rightarrow> (False, False, 0)
      | PyNone \<Rightarrow>
          if total_time + twait > tmax then (True, False, total_time)
          else (False, True, total_time + twait))"

section \<open>\<open>averun\<close>\<close>

text \<open>
  The values \<open>cl.get_value\<close> returns for the registered parameters, each field named
  after its parameter. \<open>p_bias\<close> is the frame \<open>hcam.MCCD.read\<close> returns for the bias
  named, \<open>None\<close> when the answer is \<open>none\<close>. \<open>p_first\<close>, \<open>p_last\<close>, \<open>p_twait\<close> and
  \<open>p_tmax\<close> are asked for, and the variables \<open>last\<close>, \<open>twait\<close> and \<open>tmax\<close> bound,
  only when the source ends in \<open>s\<close> or \<open>l\<close>; for a file list \<open>first\<close> is 1 and \<open>last\<close>
  stays unbound.
\<close>

record cline =
  p_source :: string
  p_run :: string
  p_first :: int
  p_last :: int
  p_twait :: real
  p_tmax :: real
  p_bias :: "mccd option"
  p_clobber :: bool
  p_output :: string

definition server_or_local :: "string \<Rightarrow> bool" where
  "server_or_local source = (endswith source ''s'' \<or> endswith source ''l'')"

text \<open>
  The reading loop, lines 147 to 166. The spool that \<open>hcam.data_source(source, run,
  first)\<close> hands to the \<open>with\<close> statement is a parameter: the list of the objects its
  \<open>__next__\<close> returns before \<open>StopIteration\<close>. What the package binds to the name
  \<open>hcam.data_source\<close> is not among the sources (\<open>spooler.data_source\<close> takes six
  arguments, not these three), so the call itself is not modelled. The loop state is \<open>nframe\<close>, \<open>total_time\<close>, the list
  \<open>mccds\<close> and the loop variable \<open>mccd\<close> (\<open>None\<close> while unbound); \<open>lst\<close> is the
  variable \<open>last\<close>, \<open>None\<close> when unbound. The result is the list and the loop variable
  as the loop leaves them, and the exception if the loop raised one. The sleep inside
  \<open>hang_about\<close> changes none of these values.
\<close>

fun read_frames ::
  "bool \<Rightarrow> int option \<Rightarrow> real \<Rightarrow> real \<Rightarrow> int \<Rightarrow> real \<Rightarrow> obj list \<Rightarrow> obj option \<Rightarrow> obj list \<Rightarrow>
   obj list \<times> obj option \<times> error option" where
  "read_frames sl lst twait tmax nframe total_time mccds var [] = (mccds, var, None)"
| "read_frames sl lst twait tmax nframe total_time mccds var (mccd # spool) =
     (case (if sl then hang_about mccd twait tmax total_time
            else (False, False, total_time)) of
        (give_up, try_again, total_time') \<Rightarrow>
          if give_up then (mccds, Some mccd, None)
          else if try_again then
            read_frames sl lst twait tmax nframe total_time' mccds (Some mccd) spool
          else
            (case lst of
               None \<Rightarrow> (mccds @ [mccd], Some mccd, Some (UnboundLocalError ''last''))
             | Some l \<Rightarrow>
                 if nframe \<ge> l then (mccds @ [mccd], Some mccd, None)
                 else read_frames sl lst twait tmax (nframe + 1) total_time'
                        (mccds @ [mccd]) (Some mccd) spool))"

definition averun_read :: "cline \<Rightarrow> obj list \<Rightarrow> obj list \<times> obj option \<times> error option" where
  "averun_read cl spool =
     (let sl = server_or_local (p_source cl);
          first = (if sl then p_first cl else 1);
          lst = (if sl then Some (p_last cl) else None)
      in read_frames sl lst (p_twait cl) (p_tmax cl) first 0 [] None spool)"

text \<open>
  Lines 140 to 174: the frames read and the template, \<open>mccd.copy()\<close> of the loop
  variable. A copy of a frame is the frame, as a value; \<open>None\<close> has no \<open>copy\<close>.
\<close>

definition averun_template :: "cline \<Rightarrow> obj list \<Rightarrow> error + obj list \<times> mccd" where
  "averun_template cl spool =
     (case averun_read cl spool of
        (mccds, var, Some e) \<Rightarrow> Inl e
      | (mccds, var, None) \<Rightarrow>
          if length mccds = 0 then Inl (HipercamError ''no frames read'')
          else
            (case var of
               None \<Rightarrow> Inl (UnboundLocalError ''mccd'')
             | Some PyNone \<Rightarrow> Inl (AttributeError ''copy'')
             | Some (Frame m) \<Rightarrow> Inr (mccds, m)))"

text \<open>
  Lines 185 and 186: \<open>ccd -= bias[cnam]\<close> when there is a bias. The subtraction of one
  CCD from another, \<open>isub\<close>, and \<open>crop\<close> below are methods of \<open>ccd\<close> and parameters
  here; either may raise.
\<close>

definition sub_bias ::
  "(ccd \<Rightarrow> ccd \<Rightarrow> error + ccd) \<Rightarrow> mccd option \<Rightarrow> string \<Rightarrow> ccd \<Rightarrow> error + ccd" where
  "sub_bias isub bias cnam c =
     (case bias of
        None \<Rightarrow> Inr c
      | Some b \<Rightarrow> (case map_of b cnam of None \<Rightarrow> Inl (KeyError cnam) | Some bc \<Rightarrow> isub c bc))"

text \<open>
  Lines 182 to 187. \<open>ccds\<close> is a dictionary from CCD label to the list of the CCDs
  to combine; it is only ever read by key.
\<close>

type_synonym buffers = "string \<Rightarrow> ccd list option"

fun add_items ::
  "(ccd \<Rightarrow> ccd \<Rightarrow> error + ccd) \<Rightarrow> mccd option \<Rightarrow> buffers \<Rightarrow> (string \<times> ccd) list \<Rightarrow>
   error + buffers" where
  "add_items isub bias ccds [] = Inr ccds"
| "add_items isub bias ccds ((cnam, c) # items) =
     (if is_data c then
        (case sub_bias isub bias cnam c of
           Inl e \<Rightarrow> Inl e
         | Inr c' \<Rightarrow>
             (case ccds cnam of
                None \<Rightarrow> Inl (KeyError cnam)
              | Some l \<Rightarrow> add_items isub bias (ccds(cnam \<mapsto> l @ [c'])) items))
      else add_items isub bias ccds items)"

fun add_frames ::
  "(ccd \<Rightarrow> ccd \<Rightarrow> error + ccd) \<Rightarrow> mccd option \<Rightarrow> buffers \<Rightarrow> obj list \<Rightarrow> error + buffers" where
  "add_frames isub bias ccds [] = Inr ccds"
| "add_frames isub bias ccds (mccd # mccds) =
     (case mccd of
        PyNone \<Rightarrow> Inl (AttributeError ''items'')
      | Frame m \<Rightarrow>
          (case add_items isub bias ccds m of
             Inl e \<Rightarrow> Inl e
           | Inr ccds' \<Rightarrow> add_frames isub bias ccds' mccds))"

text \<open>Line 180: an empty list for every CCD label of the template.\<close>

definition empty_buffers :: "mccd \<Rightarrow> buffers" where
  "empty_buffers template = map_of (map (\<lambda>cnam. (cnam, [])) (map fst template))"

text \<open>Lines 176 to 178: the bias, if there is one, cropped to the template.\<close>

definition crop_bias ::
  "(mccd \<Rightarrow> mccd \<Rightarrow> error + mccd) \<Rightarrow> mccd option \<Rightarrow> mccd \<Rightarrow> error + mccd option" where
  "crop_bias crop bias template =
     (case bias of
        None \<Rightarrow> Inr None
      | Some b \<Rightarrow> (case crop b template of Inl e \<Rightarrow> Inl e | Inr b' \<Rightarrow> Inr (Some b')))"

text \<open>Lines 140 to 187: the template and the buffers, filled.\<close>

definition averun_ccds ::
  "(mccd \<Rightarrow> mccd \<Rightarrow> error + mccd) \<Rightarrow> (ccd \<Rightarrow> ccd \<Rightarrow> error + ccd) \<Rightarrow> cline \<Rightarrow> obj list \<Rightarrow>
   error + mccd \<times> buffers" where
  "averun_ccds crop isub cl spool =
     (case averun_template cl spool of
        Inl e \<Rightarrow> Inl e
      | Inr (mccds, template) \<Rightarrow>
          (case crop_bias crop (p_bias cl) template of
             Inl e \<Rightarrow> Inl e
           | Inr bias \<Rightarrow>
               (case add_frames isub bias (empty_buffers template) mccds of
                  Inl e \<Rightarrow> Inl e
                | Inr ccds \<Rightarrow> Inr (template, ccds))))"

text \<open>Lines 190 to 194: every CCD of the template needs a frame.\<close>

fun check_ccds :: "buffers \<Rightarrow> string list \<Rightarrow> error + unit" where
  "check_ccds ccds [] = Inr ()"
| "check_ccds ccds (cnam # cnams) =
     (case ccds cnam of
        None \<Rightarrow> Inl (KeyError cnam)
      | Some l \<Rightarrow>
          if length l = 0 then Inl (HipercamError (''found no valid frames for CCD '' @ cnam))
          else check_ccds ccds cnams)"

text \<open>Line 206: \<open>[ccd[wnam].data for ccd in ccds[cnam]]\<close>.\<close>

fun get_arrs :: "string \<Rightarrow> ccd list \<Rightarrow> error + real list list list" where
  "get_arrs wnam [] = Inr []"
| "get_arrs wnam (c # cs) =
     (case map_of (windows c) wnam of
        None \<Rightarrow> Inl (KeyError wnam)
      | Some w \<Rightarrow>
          (case get_arrs wnam cs of Inl e \<Rightarrow> Inl e | Inr arrs \<Rightarrow> Inr (data w # arrs)))"

text \<open>
  Lines 204 to 208, the loop over the windows of one CCD of the template, and lines 196
  to 208, the loop over its CCDs: a dictionary has one item for a key, so the loop over
  the keys with \<open>template[cnam]\<close> is the loop over the items. The template is changed in
  place: the result is the template with the new pixel data.
\<close>

fun median_windows :: "ccd list \<Rightarrow> (string \<times> window) list \<Rightarrow> error + (string \<times> window) list" where
  "median_windows cs [] = Inr []"
| "median_windows cs ((wnam, wind) # items) =
     (case get_arrs wnam cs of
        Inl e \<Rightarrow> Inl e
      | Inr arrs \<Rightarrow>
          (case np_stack arrs of
             Inl e \<Rightarrow> Inl e
           | Inr arr3d \<Rightarrow>
               (case median_windows cs items of
                  Inl e \<Rightarrow> Inl e
                | Inr items' \<Rightarrow> Inr ((wnam, wind\<lparr>data := np_median_axis0 arr3d\<rparr>) # items'))))"

fun median_ccds :: "buffers \<Rightarrow> mccd \<Rightarrow> error + mccd" where
  "median_ccds ccds [] = Inr []"
| "median_ccds ccds ((cnam, tccd) # items) =
     (case ccds cnam of
        None \<Rightarrow> Inl (KeyError cnam)
      | Some cs \<Rightarrow>
          (case median_windows cs (windows tccd) of
             Inl e \<Rightarrow> Inl e
           | Inr ws \<Rightarrow>
               (case median_ccds ccds items of
                  Inl e \<Rightarrow> Inl e
                | Inr items' \<Rightarrow> Inr ((cnam, tccd\<lparr>windows := ws\<rparr>) # items'))))"

text \<open>Lines 140 to 208: the frame that line 211 writes.\<close>

definition averun_median ::
  "(mccd \<Rightarrow> mccd \<Rightarrow> error + mccd) \<Rightarrow> (ccd \<Rightarrow> ccd \<Rightarrow> error + ccd) \<Rightarrow> cline \<Rightarrow> obj list \<Rightarrow>
   error + mccd" where
  "averun_median crop isub cl spool =
     (case averun_ccds crop isub cl spool of
        Inl e \<Rightarrow> Inl e
      | Inr (template, ccds) \<Rightarrow>
          (case check_ccds ccds (map fst template) of
             Inl e \<Rightarrow> Inl e
           | Inr u \<Rightarrow> median_ccds ccds template))"

text \<open>
  \<open>averun\<close> from line 140 on, in a file system \<open>fs\<close>. \<open>write\<close> is the method
  \<open>MCCD.write(outfile, clobber)\<close>, a parameter: it returns the file system it leaves, and
  may raise. An exception before line 211 leaves the file system as it was.
\<close>

definition averun ::
  "(mccd \<Rightarrow> mccd \<Rightarrow> error + mccd) \<Rightarrow> (ccd \<Rightarrow> ccd \<Rightarrow> error + ccd) \<Rightarrow>
   (mccd \<Rightarrow> string \<Rightarrow> bool \<Rightarrow> 'fs \<Rightarrow> (error + unit) \<times> 'fs) \<Rightarrow> cline \<Rightarrow> obj list \<Rightarrow> 'fs \<Rightarrow>
   (error + unit) \<times> 'fs" where
  "averun crop isub write cl spool fs =
     (case averun_median crop isub cl spool of
        Inl e \<Rightarrow> (Inl e, fs)
      | Inr template \<Rightarrow> write template (p_output cl) (p_clobber cl) fs)"

section \<open>The wait for a new frame in \<open>rtplot\<close>\<close>

text \<open>
  The loop \<open>for n, frame in enumerate(spool)\<close> of \<open>rtplot\<close>. Its state: the time
  waited for a new frame, the arguments of the calls of \<open>time.sleep\<close> so far, the index
  \<open>n\<close> of \<open>enumerate\<close>, and the state of the display. The part of the loop body after
  the wait (progress message, display, profile fits) is the parameter \<open>body\<close>; it can
  raise.
\<close>

record 'd rtplot_state =
  total_time :: real
  slept :: "real list"
  n_enum :: nat
  display :: 'd

text \<open>How the loop ends.\<close>

datatype ending = Stopped | Exhausted | Raised error

fun rtplot_loop ::
  "(nat \<Rightarrow> obj \<Rightarrow> 'd \<Rightarrow> error + 'd) \<Rightarrow> bool \<Rightarrow> real \<Rightarrow> real \<Rightarrow> 'd rtplot_state \<Rightarrow> obj list \<Rightarrow>
   ending \<times> 'd rtplot_state" where
  "rtplot_loop body server twait tmax st [] = (Exhausted, st)"
| "rtplot_loop body server twait tmax st (frame # spool) =
     (if server \<and> frame = PyNone then
        if tmax < total_time st + twait then (Stopped, st)
        else rtplot_loop body server twait tmax
               (st\<lparr>total_time := total_time st + twait, slept := slept st @ [twait],
                   n_enum := Suc (n_enum st)\<rparr>) spool
      else
        let st' = (if server then st\<lparr>total_time := 0\<rparr> else st) in
        (case body (n_enum st') frame (display st') of
           Inl e \<Rightarrow> (Raised e, st')
         | Inr d \<Rightarrow>
             rtplot_loop body server twait tmax
               (st'\<lparr>n_enum := Suc (n_enum st'), display := d\<rparr>) spool))"

section \<open>The terms of the claims about \<open>averun\<close>\<close>

text \<open>
  The CCDs labelled \<open>cnam\<close> of a frame for which \<open>is_data()\<close> is true: at most one,
  since a frame has one CCD of a label.
\<close>

definition valid_ccds :: "string \<Rightarrow> mccd \<Rightarrow> ccd list" where
  "valid_ccds cnam m = map snd (filter (\<lambda>(k, c). k = cnam \<and> is_data c) m)"

text \<open>
  \<open>cs\<close> is the combination set of the CCD \<open>cnam\<close> over the frames: it holds, in the
  order of the frames, the valid CCDs of that label and no other, each as the bias
  subtraction leaves it (unchanged when there is no bias).
\<close>

definition combination_set ::
  "(ccd \<Rightarrow> ccd \<Rightarrow> error + ccd) \<Rightarrow> mccd option \<Rightarrow> string \<Rightarrow> mccd list \<Rightarrow> ccd list \<Rightarrow> bool" where
  "combination_set isub bias cnam frames cs =
     list_all2 (\<lambda>c c'. sub_bias isub bias cnam c = Inr c')
       (concat (map (valid_ccds cnam) frames)) cs"

text \<open>
  \<open>out\<close> is the element-wise median of a stack of arrays: the stack is not empty, its
  members have the shape of \<open>out\<close>, and every element of \<open>out\<close> is the median of the
  elements of the members at its place.
\<close>

definition elementwise_median :: "real list list list \<Rightarrow> real list list \<Rightarrow> bool" where
  "elementwise_median stack out =
     (stack \<noteq> [] \<and> list_all (\<lambda>a. shape a = shape out) stack \<and>
      (\<forall>i < length out. \<forall>j < length (out ! i).
         out ! i ! j = median (map (\<lambda>a. a ! i ! j) stack)))"

text \<open>
  The window \<open>ow\<close>, labelled \<open>wnam\<close>, is the median of the windows of that label of the
  CCDs \<open>cs\<close>: each of them has such a window, and the data of \<open>ow\<close> is the element-wise
  median of theirs.
\<close>

definition window_is_median :: "ccd list \<Rightarrow> string \<Rightarrow> window \<Rightarrow> bool" where
  "window_is_median cs wnam ow =
     (\<exists>ws. map (\<lambda>c. map_of (windows c) wnam) cs = map Some ws \<and>
           elementwise_median (map data ws) (data ow))"

text \<open>
  Every window of every CCD of \<open>out\<close> is the median of the windows of its label over
  the combination set of its CCD.
\<close>

definition median_of_frames ::
  "(ccd \<Rightarrow> ccd \<Rightarrow> error + ccd) \<Rightarrow> mccd option \<Rightarrow> mccd list \<Rightarrow> mccd \<Rightarrow> bool" where
  "median_of_frames isub bias frames out =
     (\<forall>(cnam, oc) \<in> set out. \<forall>(wnam, ow) \<in> set (windows oc).
        \<exists>cs. combination_set isub bias cnam frames cs \<and> window_is_median cs wnam ow)"

text \<open>
  The layout of a frame: its CCD labels in order, and for each CCD the validity flag and
  the labels and origins of its windows, in order.
\<close>

definition layout :: "mccd \<Rightarrow> (string \<times> bool \<times> (string \<times> int \<times> int) list) list" where
  "layout m =
     map (\<lambda>(cnam, c). (cnam, is_data c, map (\<lambda>(wnam, w). (wnam, llx w, lly w)) (windows c))) m"

text \<open>
  The geometry of a frame: its CCD labels in order, and for each CCD the labels of its
  windows and the shapes of their pixel arrays, in order. Frames of one run have one
  geometry.
\<close>

definition window_shapes :: "ccd \<Rightarrow> (string \<times> nat \<times> nat) list" where
  "window_shapes c = map (\<lambda>(wnam, w). (wnam, shape (data w))) (windows c)"

definition geometry :: "mccd \<Rightarrow> (string \<times> (string \<times> nat \<times> nat) list) list" where
  "geometry m = map (\<lambda>(cnam, c). (cnam, window_shapes c)) m"

section \<open>Example frames\<close>

text \<open>
  Frames of two CCDs, \<open>1\<close> and \<open>2\<close>, each of one window \<open>E1\<close>; CCD \<open>1\<close> is valid,
  CCD \<open>2\<close> as the flag says. The answers to the prompts of \<open>averun\<close> for a given source
  and last frame, with no bias.
\<close>

definition example_ccd :: "bool \<Rightarrow> real list list \<Rightarrow> ccd" where
  "example_ccd ok d = \<lparr>windows = [(''E1'', \<lparr>llx = 1, lly = 1, data = d\<rparr>)], is_data = ok\<rparr>"

definition example_frame :: "real list list \<Rightarrow> bool \<Rightarrow> real list list \<Rightarrow> mccd" where
  "example_frame d1 ok d2 = [(''1'', example_ccd True d1), (''2'', example_ccd ok d2)]"

definition example_cline :: "string \<Rightarrow> int \<Rightarrow> cline" where
  "example_cline source lst =
     \<lparr>p_source = source, p_run = ''run005'', p_first = 1, p_last = lst, p_twait = 1,
      p_tmax = 10, p_bias = None, p_clobber = False, p_output = ''hcam''\<rparr>"

text \<open>
  Modelled from the spec: \<open>MCCD.write(outfile, clobber)\<close>, which is not among the
  sources, as the examples use it. The file system maps a name to the frame stored under
  it; a file that exists is an error unless \<open>clobber\<close> is set, and is replaced if it is.
\<close>

definition example_write ::
  "mccd \<Rightarrow> string \<Rightarrow> bool \<Rightarrow> (string \<Rightarrow> mccd option) \<Rightarrow> (error + unit) \<times> (string \<Rightarrow> mccd option)" where
  "example_write m fname clobber fs =
     (if fs fname \<noteq> None \<and> \<not> clobber then (Inl (OutputConflictError fname), fs)
      else (Inr (), fs(fname \<mapsto> m)))"

section \<open>Properties of \<open>get_ccd_pars\<close>\<close>

text \<open>
  The ULTRACAM branch hands \<open>OrderedDict\<close> a tuple of three (label, dimensions) pairs
  and returns the three CCDs in order.
\<close>

lemma get_ccd_pars_ultracam:
  "Rhead resource = Inr ''ULTRACAM'' \<Longrightarrow>
   get_ccd_pars Rhead get_ccd_info nxtot nytot fls ''ULTRA'' resource False =
     Inr (Some [(PStr ''r'', dims 1080 1032), (PStr ''g'', dims 1080 1032),
                (PStr ''b'', dims 1080 1032)])"
  by (simp add: get_ccd_pars_def OrderedDict_def returns_def dims_def)

text \<open>
  C10. For \<open>get_ccd_pars('ULTRA', resource, False)\<close> on a resource whose header reports
  the instrument ULTRASPEC the claim expects the one-entry mapping from \<open>'1'\<close> to
  \<open>(1056, 1072)\<close>. The code writes \<open>OrderedDict(('1',(1056,1072)))\<close>: the argument is
  the pair itself and not a tuple of pairs, so the constructor takes the string \<open>'1'\<close> as
  its first element, cannot unpack its one character into a key and a value, and every
  such call raises \<open>ValueError\<close>; no mapping is returned.
\<close>

theorem get_ccd_pars_ultraspec_raises:
  "Rhead resource = Inr ''ULTRASPEC'' \<Longrightarrow>
   get_ccd_pars Rhead get_ccd_info nxtot nytot fls ''ULTRA'' resource False =
     Inl (ValueError ''need more than 1 value to unpack'')"
  by (simp add: get_ccd_pars_def OrderedDict_def returns_def dims_def)

theorem get_ccd_pars_ultraspec_raises_witness:
  "get_ccd_pars (\<lambda>r. Inr ''ULTRASPEC'') (\<lambda>f. Inr []) 2048 1024 (\<lambda>f. None)
     ''ULTRA'' ''run003'' False =
   Inl (ValueError ''need more than 1 value to unpack'')"
  using get_ccd_pars_ultraspec_raises
    [of "\<lambda>r. Inr ''ULTRASPEC''" "''run003''" "\<lambda>f. Inr []" 2048 1024 "\<lambda>f. None"]
  by simp

section \<open>Properties of the file-list spool\<close>

text \<open>
  The end of the sequence is where the claim puts it: \<open>__next__\<close> raises
  \<open>StopIteration\<close> exactly when no line that is left is a data line, and the loop over
  the spool makes one step per data line of the list.
\<close>

lemma skip_comments_None: "skip_comments it = None \<longleftrightarrow> (\<forall>l \<in> set it. startswith l ''#'')"
  by (induction it) auto

lemma HcamListSpool_next_stops:
  "fst (HcamListSpool_next it) = StopIteration \<longleftrightarrow> (\<forall>l \<in> set it. startswith l ''#'')"
  using skip_comments_None [of it]
  by (auto simp: HcamListSpool_next_def split: option.splits)

lemma skip_comments_Some:
  "skip_comments it = Some (fname, rest) \<Longrightarrow>
   \<not> startswith fname ''#'' \<and>
   filter (\<lambda>l. \<not> startswith l ''#'') it = fname # filter (\<lambda>l. \<not> startswith l ''#'') rest"
  by (induction it) (auto split: if_splits)

text \<open>What a call returns is never a frame: it is \<open>None\<close>, whatever the line names.\<close>

lemma HcamListSpool_next_returns_None:
  "HcamListSpool_next it = (Returned x, it') \<Longrightarrow> x = PyNone"
  by (auto simp: HcamListSpool_next_def split: option.splits)

lemma HcamListSpool_items_eq:
  "HcamListSpool_items it = map (\<lambda>l. PyNone) (filter (\<lambda>l. \<not> startswith l ''#'') it)"
proof (induction it rule: HcamListSpool_items.induct)
  case (1 it)
  show ?case
  proof (cases "skip_comments it")
    case None
    then have "filter (\<lambda>l. \<not> startswith l ''#'') it = []"
      by (simp add: skip_comments_None filter_empty_conv)
    with None show ?thesis
      by (simp add: HcamListSpool_items.simps [of it] HcamListSpool_next_def)
  next
    case (Some p)
    obtain fname rest where p: "p = (fname, rest)" by (cases p)
    have nxt: "HcamListSpool_next it = (Returned PyNone, rest)"
      using Some p by (simp add: HcamListSpool_next_def)
    have "HcamListSpool_items rest =
            map (\<lambda>l. PyNone) (filter (\<lambda>l. \<not> startswith l ''#'') rest)"
      using "1.IH" [OF nxt [symmetric] refl] .
    moreover have "filter (\<lambda>l. \<not> startswith l ''#'') it =
            fname # filter (\<lambda>l. \<not> startswith l ''#'') rest"
      using skip_comments_Some Some p by simp
    ultimately show ?thesis
      using nxt by (simp add: HcamListSpool_items.simps [of it])
  qed
qed

text \<open>
  C3. The claim has each call of produce-next return the frame read from the file that
  the next data line names, so that a list of two data lines around one comment line
  gives two frames. The code finds the line and ends without a \<open>return\<close>: on that list
  the loop variable is \<open>None\<close> twice, and no file of the list is opened or
  deserialized. Only the count of steps and the end of the sequence are as claimed.
\<close>

theorem HcamListSpool_items_two_data_lines:
  "HcamListSpool_items [''run0001.hcm\<newline>'', ''# a comment\<newline>'', ''run0002.hcm\<newline>'']
     = [PyNone, PyNone]"
  by (simp add: HcamListSpool_items_eq startswith_def)

section \<open>Properties of the wait in \<open>rtplot\<close>\<close>

text \<open>
  C4. One poll of the retry policy, with the server as source, in the state
  (\<open>twait\<close>, \<open>tmax\<close>, \<open>total_time\<close>). When the read gave \<open>None\<close> and
  \<open>total_time + twait > tmax\<close> the loop stops, with no exception and the state as it
  was; when it gave \<open>None\<close> and the bound holds the loop sleeps \<open>twait\<close> seconds, adds
  \<open>twait\<close> to \<open>total_time\<close> and goes on with the next read; when it gave a frame
  \<open>total_time\<close> is set to 0, whatever it was, before the frame is displayed.
\<close>

theorem rtplot_poll_policy:
  assumes "server"
  shows "rtplot_loop body server twait tmax st (PyNone # spool) =
           (if total_time st + twait > tmax then (Stopped, st)
            else rtplot_loop body server twait tmax
                   (st\<lparr>total_time := total_time st + twait, slept := slept st @ [twait],
                       n_enum := Suc (n_enum st)\<rparr>) spool)
       \<and> rtplot_loop body server twait tmax st (Frame f # spool) =
           (case body (n_enum st) (Frame f) (display st) of
              Inl e \<Rightarrow> (Raised e, st\<lparr>total_time := 0\<rparr>)
            | Inr d \<Rightarrow> rtplot_loop body server twait tmax
                        (st\<lparr>total_time := 0, n_enum := Suc (n_enum st), display := d\<rparr>) spool)"
  using assms by (simp split: sum.splits)

theorem rtplot_poll_policy_witness:
  "rtplot_loop (\<lambda>n f d. Inr (d @ [f])) True 1 3
     \<lparr>total_time = 3, slept = [1, 1, 1], n_enum = 3, display = []\<rparr> [PyNone, Frame []]
     = (Stopped, \<lparr>total_time = 3, slept = [1, 1, 1], n_enum = 3, display = []\<rparr>)
   \<and> rtplot_loop (\<lambda>n f d. Inr (d @ [f])) True 1 3
     \<lparr>total_time = 2, slept = [1, 1], n_enum = 2, display = []\<rparr> [PyNone, Frame []]
     = (Exhausted, \<lparr>total_time = 0, slept = [1, 1, 1], n_enum = 4, display = [Frame []]\<rparr>)"
  using rtplot_poll_policy [where server = True and body = "\<lambda>n f d. Inr (d @ [f])"
          and twait = 1 and tmax = 3 and spool = "[Frame []]" and f = "[]"
          and st = "\<lparr>total_time = 3, slept = [1, 1, 1], n_enum = 3, display = []\<rparr>"]
        rtplot_poll_policy [where server = True and body = "\<lambda>n f d. Inr (d @ [f])"
          and twait = 1 and tmax = 3 and spool = "[Frame []]" and f = "[]"
          and st = "\<lparr>total_time = 2, slept = [1, 1], n_enum = 2, display = []\<rparr>"]
        rtplot_poll_policy [where server = True and body = "\<lambda>n f d. Inr (d @ [f])"
          and twait = 1 and tmax = 3 and spool = "[]" and f = "[]"
          and st = "\<lparr>total_time = 3, slept = [1, 1, 1], n_enum = 3, display = []\<rparr>"]
  by simp

text \<open>
  The policy run to its end: with \<open>twait = 1\<close> and \<open>tmax = 3\<close>, a server that keeps
  answering \<open>None\<close> is waited for three times, and the fourth poll stops the loop.
\<close>

lemma rtplot_gives_up_after_three_waits:
  "rtplot_loop body True 1 3 \<lparr>total_time = 0, slept = [], n_enum = 0, display = d\<rparr>
     [PyNone, PyNone, PyNone, PyNone, PyNone]
   = (Stopped, \<lparr>total_time = 3, slept = [1, 1, 1], n_enum = 3, display = d\<rparr>)"
  by simp

text \<open>
  \<open>hang_about\<close>, as the specification describes it, is the policy that \<open>rtplot\<close> has
  in line: with the server as source, one turn of the loop of \<open>rtplot\<close> is the call of
  \<open>hang_about\<close> followed by the stop, the next read or the display.
\<close>

lemma rtplot_loop_hang_about:
  "rtplot_loop body True twait tmax st (x # spool) =
     (case hang_about x twait tmax (total_time st) of
        (give_up, try_again, waited) \<Rightarrow>
          if give_up then (Stopped, st)
          else if try_again then
            rtplot_loop body True twait tmax
              (st\<lparr>total_time := waited, slept := slept st @ [twait],
                  n_enum := Suc (n_enum st)\<rparr>) spool
          else
            (case body (n_enum st) x (display st) of
               Inl e \<Rightarrow> (Raised e, st\<lparr>total_time := waited\<rparr>)
             | Inr d \<Rightarrow>
                 rtplot_loop body True twait tmax
                   (st\<lparr>total_time := waited, n_enum := Suc (n_enum st), display := d\<rparr>) spool))"
  by (cases x) (simp_all add: hang_about_def split: sum.splits)

section \<open>Properties of \<open>data_source\<close>\<close>

text \<open>
  C9, as the claim states it, fails: \<open>data_source\<close> does not leave the resource
  unopened. For a HiPERCAM file list it calls \<open>HcamListSpool(resource)\<close>, whose
  constructor runs \<open>open(lname)\<close>, so the spool comes back with the list file open: the
  world holds a handle it did not hold before.
\<close>

theorem data_source_opens_list_counterexample:
  "data_source (\<lambda>run first flt server w. (Inr (), w)) (\<lambda>run first flt server w. (Inr (), w))
     ''HIPER'' ''files.lis'' True False 1 False
     \<lparr>files = (\<lambda>f. if f = ''files.lis'' then Some [''run0001.hcm\<newline>''] else None),
      handles = []\<rparr>
   = (Inr (HcamListSpool ''files.lis'' [''run0001.hcm\<newline>'']),
      \<lparr>files = (\<lambda>f. if f = ''files.lis'' then Some [''run0001.hcm\<newline>''] else None),
       handles = [''files.lis'']\<rparr>)"
  by (simp add: data_source_def HcamListSpool_init_def py_open_def construct_def)

text \<open>
  C9, amended. Every validation failure (an instrument that is neither \<open>ULTRA\<close> nor
  \<open>HIPER\<close>; a file list for \<open>ULTRA\<close>; the server for \<open>HIPER\<close>) is raised with the
  world untouched. On every other argument combination \<open>data_source\<close> is the call of the
  constructor of the matching spool class, and the constructor acquires the resource:
  \<open>HcamListSpool\<close> opens the list file, so that a list that exists is held open from
  construction on and one that does not raises the error of \<open>open\<close>; the disk and server
  classes construct their \<open>Rdata\<close> reader, local or served as the class says.
\<close>

theorem data_source_factory:
  "(inst \<noteq> ''ULTRA'' \<and> inst \<noteq> ''HIPER'' \<longrightarrow>
      data_source ucam_Rdata hcam_Rdata inst resource flist server first flt w =
        (Inl (ValueError (''spooler.data_source: inst = '' @ inst @ '' not recognised'')), w))
   \<and> data_source ucam_Rdata hcam_Rdata ''ULTRA'' resource True server first flt w =
        (Inl (NotImplementedError
          ''spooler.data_source: file lists have not been implemented for inst = \"ULTRA\"''), w)
   \<and> data_source ucam_Rdata hcam_Rdata ''HIPER'' resource False True first flt w =
        (Inl (NotImplementedError ''spooler.data_source: HiPERCAM server not implemented yet''), w)
   \<and> data_source ucam_Rdata hcam_Rdata ''ULTRA'' resource False True first flt w =
        construct UcamServSpool (ucam_Rdata resource first flt True w)
   \<and> data_source ucam_Rdata hcam_Rdata ''ULTRA'' resource False False first flt w =
        construct UcamDiskSpool (ucam_Rdata resource first flt False w)
   \<and> data_source ucam_Rdata hcam_Rdata ''HIPER'' resource False False first flt w =
        construct HcamDiskSpool (hcam_Rdata resource first flt False w)
   \<and> data_source ucam_Rdata hcam_Rdata ''HIPER'' resource True server first flt w =
        (case files w resource of
           None \<Rightarrow> (Inl (FileNotFoundError resource), w)
         | Some ls \<Rightarrow> (Inr (HcamListSpool resource ls), w\<lparr>handles := handles w @ [resource]\<rparr>))"
  by (simp add: data_source_def UcamServSpool_init_def UcamDiskSpool_init_def
        HcamDiskSpool_init_def HcamListSpool_init_def py_open_def construct_def
      split: option.splits)

theorem data_source_factory_witness:
  "data_source (\<lambda>run first flt server w. (Inr (run, first, flt, server), w))
      (\<lambda>run first flt server w. (Inr (run, first, flt, server), w))
      ''ULTRACAM'' ''run003'' False True 1 False \<lparr>files = (\<lambda>f. None), handles = []\<rparr>
    = (Inl (ValueError ''spooler.data_source: inst = ULTRACAM not recognised''),
       \<lparr>files = (\<lambda>f. None), handles = []\<rparr>)
   \<and> data_source (\<lambda>run first flt server w. (Inr (run, first, flt, server), w))
      (\<lambda>run first flt server w. (Inr (run, first, flt, server), w))
      ''ULTRA'' ''run003'' False True 1 False \<lparr>files = (\<lambda>f. None), handles = []\<rparr>
    = (Inr (UcamServSpool (''run003'', 1, False, True)),
       \<lparr>files = (\<lambda>f. None), handles = []\<rparr>)
   \<and> data_source (\<lambda>run first flt server w. (Inr (run, first, flt, server), w))
      (\<lambda>run first flt server w. (Inr (run, first, flt, server), w))
      ''HIPER'' ''files.lis'' True False 1 False \<lparr>files = (\<lambda>f. None), handles = []\<rparr>
    = (Inl (FileNotFoundError ''files.lis''), \<lparr>files = (\<lambda>f. None), handles = []\<rparr>)"
  using data_source_factory [where inst = "''ULTRACAM''" and resource = "''run003''"
          and flist = False and server = True and first = 1 and flt = False
          and w = "\<lparr>files = (\<lambda>f. None), handles = []\<rparr>"
          and ucam_Rdata = "\<lambda>run first flt server w. (Inr (run, first, flt, server), w)"
          and hcam_Rdata = "\<lambda>run first flt server w. (Inr (run, first, flt, server), w)"]
        data_source_factory [where inst = "''ULTRACAM''" and resource = "''files.lis''"
          and flist = False and server = False and first = 1 and flt = False
          and w = "\<lparr>files = (\<lambda>f. None), handles = []\<rparr>"
          and ucam_Rdata = "\<lambda>run first flt server w. (Inr (run, first, flt, server), w)"
          and hcam_Rdata = "\<lambda>run first flt server w. (Inr (run, first, flt, server), w)"]
  by (simp add: construct_def)

section \<open>The reading loop of \<open>averun\<close>\<close>

text \<open>
  Two facts about the loop. It raises only after it has put an object into the list. And
  a frame in the loop variable, when the loop is left, is the last object of the list:
  the loop variable holds \<open>None\<close> after a read that was waited for or given up on, and
  the object just appended otherwise.
\<close>

lemma read_frames_raised:
  "read_frames sl lst tw tm nf tt mccds var spool = (ms, v, Some e) \<Longrightarrow> ms \<noteq> []"
proof (induction spool arbitrary: nf tt mccds var)
  case Nil
  then show ?case by simp
next
  case (Cons mccd spool)
  then show ?case
    by (auto simp: hang_about_def split: if_splits obj.splits option.splits prod.splits)
qed

lemma read_frames_var:
  assumes "read_frames sl lst tw tm nf tt mccds var spool = (ms, v, e)"
    and "v = Some (Frame m)"
    and "\<And>m'. var = Some (Frame m') \<Longrightarrow> mccds \<noteq> [] \<and> last mccds = Frame m'"
  shows "ms \<noteq> [] \<and> last ms = Frame m"
  using assms
proof (induction spool arbitrary: nf tt mccds var)
  case Nil
  then show ?case by simp
next
  case (Cons mccd spool)
  show ?case
  proof (cases "sl \<and> mccd = PyNone")
    case True
    show ?thesis
    proof (cases "tt + tw > tm")
      case True
      with \<open>sl \<and> mccd = PyNone\<close> Cons.prems show ?thesis by (simp add: hang_about_def)
    next
      case False
      with \<open>sl \<and> mccd = PyNone\<close> Cons.prems(1)
      have "read_frames sl lst tw tm nf (tt + tw) mccds (Some PyNone) spool = (ms, v, e)"
        by (simp add: hang_about_def)
      from Cons.IH [OF this Cons.prems(2)] show ?thesis by simp
    qed
  next
    case False
    then have flags: "(if sl then hang_about mccd tw tm tt else (False, False, tt)) =
        (False, False, if sl then 0 else tt)"
      by (cases mccd) (auto simp: hang_about_def)
    show ?thesis
    proof (cases lst)
      case None
      with flags Cons.prems show ?thesis by auto
    next
      case (Some l)
      show ?thesis
      proof (cases "nf \<ge> l")
        case True
        with flags Some Cons.prems show ?thesis by auto
      next
        case False
        with flags Some Cons.prems(1)
        have "read_frames sl lst tw tm (nf + 1) (if sl then 0 else tt) (mccds @ [mccd])
                (Some mccd) spool = (ms, v, e)"
          by simp
        from Cons.IH [OF this Cons.prems(2)] show ?thesis by simp
      qed
    qed
  qed
qed


lemma averun_read_raised: "averun_read cl spool = (ms, v, Some e) \<Longrightarrow> ms \<noteq> []"
  unfolding averun_read_def Let_def by (rule read_frames_raised)

lemma averun_read_var:
  assumes "averun_read cl spool = (ms, Some (Frame m), e)"
  shows "ms \<noteq> [] \<and> last ms = Frame m"
proof -
  have "read_frames (server_or_local (p_source cl))
          (if server_or_local (p_source cl) then Some (p_last cl) else None)
          (p_twait cl) (p_tmax cl) (if server_or_local (p_source cl) then p_first cl else 1)
          0 [] None spool = (ms, Some (Frame m), e)"
    using assms by (simp add: averun_read_def Let_def)
  from read_frames_var [OF this refl] show ?thesis by simp
qed

lemma averun_template_Inr:
  "averun_template cl spool = Inr (mccds, template) \<longleftrightarrow>
   mccds \<noteq> [] \<and> averun_read cl spool = (mccds, Some (Frame template), None)"
  by (auto simp: averun_template_def split: prod.splits option.splits obj.splits)

text \<open>
  C7. Whenever the reading loop of \<open>averun\<close> ends with no frame in the list, the run
  raises \<open>HipercamError('no frames read')\<close> and the file system is as it was: line 211
  is not reached, whatever \<open>write\<close> does.
\<close>

theorem averun_no_frames_read:
  assumes "fst (averun_read cl spool) = []"
  shows "averun crop isub write cl spool fs = (Inl (HipercamError ''no frames read''), fs)"
proof -
  obtain v e where rd: "averun_read cl spool = ([], v, e)"
    using assms by (cases "averun_read cl spool") auto
  have "e = None"
    using averun_read_raised [of cl spool "[]" v] rd by (cases e) auto
  with rd have "averun_template cl spool = Inl (HipercamError ''no frames read'')"
    by (simp add: averun_template_def)
  then show ?thesis
    by (simp add: averun_def averun_median_def averun_ccds_def)
qed

theorem averun_no_frames_read_witness:
  "averun (\<lambda>b t. Inr b) (\<lambda>c b. Inr c) (\<lambda>m f c fs. (Inr (), fs(f \<mapsto> m)))
     \<lparr>p_source = ''us'', p_run = ''run005'', p_first = 1, p_last = 3, p_twait = 1, p_tmax = 1,
      p_bias = None, p_clobber = True, p_output = ''hcam''\<rparr>
     [PyNone, PyNone, Frame []] Map.empty
   = (Inl (HipercamError ''no frames read''), Map.empty)"
  using averun_no_frames_read [of
     "\<lparr>p_source = ''us'', p_run = ''run005'', p_first = 1, p_last = 3, p_twait = 1, p_tmax = 1,
      p_bias = None, p_clobber = True, p_output = ''hcam''\<rparr>"
     "[PyNone, PyNone, Frame []]" "\<lambda>b t. Inr b" "\<lambda>c b. Inr c"
     "\<lambda>m f c fs. (Inr (), fs(f \<mapsto> m))" Map.empty]
  by (simp add: averun_read_def server_or_local_def endswith_def hang_about_def)

text \<open>
  When the wait is given up the loop variable holds \<open>None\<close>, and line 174 copies the loop
  variable: with a frame in the list the run ends there with \<open>AttributeError\<close>.
\<close>

lemma averun_after_give_up:
  assumes "averun_read cl spool = (ms, Some PyNone, None)" and "ms \<noteq> []"
  shows "averun crop isub write cl spool fs = (Inl (AttributeError ''copy''), fs)"
  using assms by (simp add: averun_def averun_median_def averun_ccds_def averun_template_def)

text \<open>
  C5. The claim has \<open>averun\<close> combine the frames it holds when the wait for the next one
  is given up. With the server as source, \<open>twait = 1\<close> and \<open>tmax = 0\<close>, and a spool
  that returns one frame and then \<open>None\<close>, the loop keeps the frame and gives up at the
  next read; the run then raises \<open>AttributeError\<close> at line 174, where \<open>mccd\<close> is the
  \<open>None\<close> just read, and nothing is written.
\<close>

theorem averun_give_up_after_one_frame:
  "averun (\<lambda>b t. Inr b) (\<lambda>c b. Inr c) (\<lambda>m f c fs. (Inr (), fs(f \<mapsto> m)))
     \<lparr>p_source = ''us'', p_run = ''run005'', p_first = 1, p_last = 3, p_twait = 1, p_tmax = 0,
      p_bias = None, p_clobber = True, p_output = ''hcam''\<rparr>
     [Frame [(''1'', \<lparr>windows = [(''E1'', \<lparr>llx = 1, lly = 1, data = [[1, 2], [3, 4]]\<rparr>)],
                      is_data = True\<rparr>)],
      PyNone]
     Map.empty
   = (Inl (AttributeError ''copy''), Map.empty)"
  by (simp add: averun_def averun_median_def averun_ccds_def averun_template_def
        averun_read_def server_or_local_def endswith_def hang_about_def)

section \<open>The buffers of \<open>averun\<close>\<close>

text \<open>
  What lines 180 to 187 leave in \<open>ccds\<close>: under every CCD label of the template the
  combination set of that label over the frames read, and no other key. The loop fails
  on an object that is no frame, on a valid CCD whose label the template does not have,
  and where the bias subtraction does.
\<close>

lemma empty_buffers_apply:
  "empty_buffers t cnam = (if cnam \<in> fst ` set t then Some [] else None)"
  unfolding empty_buffers_def by (induction t) auto

lemma add_items_buffers:
  "add_items isub bias ccds items = Inr ccds' \<Longrightarrow>
   \<exists>cs. ccds' cnam = map_option (\<lambda>l. l @ cs) (ccds cnam) \<and>
        list_all2 (\<lambda>c c'. sub_bias isub bias cnam c = Inr c') (valid_ccds cnam items) cs"
proof (induction items arbitrary: ccds)
  case Nil
  then show ?case by (cases "ccds cnam") (auto simp: valid_ccds_def)
next
  case (Cons item items)
  obtain k c where item: "item = (k, c)" by (cases item)
  show ?case
  proof (cases "is_data c")
    case False
    with Cons.prems item have "add_items isub bias ccds items = Inr ccds'" by simp
    from Cons.IH [OF this] False item show ?thesis by (simp add: valid_ccds_def)
  next
    case True
    with Cons.prems item obtain c' l where
      sub: "sub_bias isub bias k c = Inr c'" and l: "ccds k = Some l" and
      rest: "add_items isub bias (ccds(k \<mapsto> l @ [c'])) items = Inr ccds'"
      by (auto split: sum.splits option.splits)
    from Cons.IH [OF rest] obtain cs where
      cs: "ccds' cnam = map_option (\<lambda>l. l @ cs) ((ccds(k \<mapsto> l @ [c'])) cnam)"
        "list_all2 (\<lambda>c c'. sub_bias isub bias cnam c = Inr c') (valid_ccds cnam items) cs"
      by blast
    show ?thesis
    proof (cases "k = cnam")
      case True
      with cs l sub item \<open>is_data c\<close> show ?thesis
        by (intro exI [of _ "c' # cs"]) (simp add: valid_ccds_def)
    next
      case False
      with cs item show ?thesis
        by (intro exI [of _ cs]) (simp add: valid_ccds_def)
    qed
  qed
qed

lemma add_frames_frames:
  "add_frames isub bias ccds mccds = Inr ccds' \<Longrightarrow> \<exists>frames. mccds = map Frame frames"
proof (induction mccds arbitrary: ccds)
  case Nil
  then show ?case by simp
next
  case (Cons mccd mccds)
  then obtain m ccds1 where m: "mccd = Frame m"
      and "add_frames isub bias ccds1 mccds = Inr ccds'"
    by (auto split: obj.splits sum.splits)
  from Cons.IH [OF this(2)] obtain frames where "mccds = map Frame frames" ..
  with m have "mccd # mccds = map Frame (m # frames)" by simp
  then show ?case ..
qed

lemma add_frames_buffers:
  "add_frames isub bias ccds (map Frame frames) = Inr ccds' \<Longrightarrow>
   \<exists>cs. ccds' cnam = map_option (\<lambda>l. l @ cs) (ccds cnam) \<and>
        combination_set isub bias cnam frames cs"
proof (induction frames arbitrary: ccds)
  case Nil
  then show ?case by (cases "ccds cnam") (auto simp: combination_set_def)
next
  case (Cons m frames)
  then obtain ccds1 where first: "add_items isub bias ccds m = Inr ccds1"
      and rest: "add_frames isub bias ccds1 (map Frame frames) = Inr ccds'"
    by (auto split: sum.splits)
  from add_items_buffers [OF first, of cnam] obtain cs1 where
    cs1: "ccds1 cnam = map_option (\<lambda>l. l @ cs1) (ccds cnam)"
      "list_all2 (\<lambda>c c'. sub_bias isub bias cnam c = Inr c') (valid_ccds cnam m) cs1"
    by blast
  from Cons.IH [OF rest] obtain cs2 where
    cs2: "ccds' cnam = map_option (\<lambda>l. l @ cs2) (ccds1 cnam)"
      "combination_set isub bias cnam frames cs2"
    by blast
  have "ccds' cnam = map_option (\<lambda>l. l @ cs1 @ cs2) (ccds cnam)"
    using cs1(1) cs2(1) by (cases "ccds cnam") auto
  moreover have "combination_set isub bias cnam (m # frames) (cs1 @ cs2)"
    using cs1(2) cs2(2) by (simp add: combination_set_def list_all2_appendI)
  ultimately show ?case by blast
qed

lemma combination_set_no_bias:
  "combination_set isub None cnam frames cs \<longleftrightarrow> cs = concat (map (valid_ccds cnam) frames)"
  by (auto simp: combination_set_def sub_bias_def list_all2_eq [symmetric])

lemma averun_ccds_buffers:
  assumes "averun_ccds crop isub cl spool = Inr (template, ccds)"
  shows "\<exists>frames bias.
           averun_template cl spool = Inr (map Frame frames, template) \<and>
           crop_bias crop (p_bias cl) template = Inr bias \<and>
           (\<forall>cnam. if cnam \<in> fst ` set template
                    then \<exists>cs. ccds cnam = Some cs \<and> combination_set isub bias cnam frames cs
                    else ccds cnam = None)"
proof -
  from assms obtain mccds bias where
    t: "averun_template cl spool = Inr (mccds, template)" and
    b: "crop_bias crop (p_bias cl) template = Inr bias" and
    a: "add_frames isub bias (empty_buffers template) mccds = Inr ccds"
    by (auto simp: averun_ccds_def split: sum.splits prod.splits)
  from add_frames_frames [OF a] obtain frames where frames: "mccds = map Frame frames" ..
  have "if cnam \<in> fst ` set template
        then \<exists>cs. ccds cnam = Some cs \<and> combination_set isub bias cnam frames cs
        else ccds cnam = None" for cnam
  proof (cases "cnam \<in> fst ` set template")
    case True
    with add_frames_buffers [OF a [unfolded frames], of cnam] show ?thesis
      by (simp add: empty_buffers_apply)
  next
    case False
    with add_frames_buffers [OF a [unfolded frames], of cnam] show ?thesis
      by (simp add: empty_buffers_apply)
  qed
  with t b frames show ?thesis by blast
qed

section \<open>The check and the medians of \<open>averun\<close>\<close>


lemma check_ccds_Inr:
  "check_ccds ccds cnams = Inr u \<Longrightarrow> c \<in> set cnams \<Longrightarrow> \<exists>l. ccds c = Some l \<and> l \<noteq> []"
  by (induction cnams) (auto split: option.splits if_splits)

text \<open>The median of one value, of two and of three.\<close>

lemma median_single: "median [x] = x"
  by (simp add: median_def)

lemma median_pair: "median [x, y] = (x + y) / 2"
  by (simp add: median_def)

lemma median_triple: "x \<le> y \<Longrightarrow> y \<le> z \<Longrightarrow> median [z, x, y] = y"
  by (simp add: median_def)

lemma get_arrs_Inr:
  "get_arrs wnam cs = Inr arrs \<Longrightarrow>
   \<exists>ws. map (\<lambda>c. map_of (windows c) wnam) cs = map Some ws \<and> arrs = map data ws"
proof (induction cs arbitrary: arrs)
  case Nil
  then show ?case by simp
next
  case (Cons c cs)
  then obtain w arrs' where w: "map_of (windows c) wnam = Some w"
      and rest: "get_arrs wnam cs = Inr arrs'" and arrs: "arrs = data w # arrs'"
    by (auto split: option.splits sum.splits)
  from Cons.IH [OF rest] obtain ws where
    "map (\<lambda>c. map_of (windows c) wnam) cs = map Some ws" "arrs' = map data ws" by blast
  with w arrs have "map (\<lambda>c. map_of (windows c) wnam) (c # cs) = map Some (w # ws) \<and>
      arrs = map data (w # ws)" by simp
  then show ?case ..
qed

lemma np_stack_Inr:
  "np_stack arrs = Inr arr3d \<Longrightarrow>
   arr3d = arrs \<and> arrs \<noteq> [] \<and> list_all (\<lambda>b. shape b = shape (hd arrs)) arrs"
  by (cases arrs) (auto simp: np_stack_def split: if_splits)

lemma shape_np_median_axis0: "arrs \<noteq> [] \<Longrightarrow> shape (np_median_axis0 arrs) = shape (hd arrs)"
proof (cases arrs)
  case Nil
  then show "arrs \<noteq> [] \<Longrightarrow> ?thesis" by simp
next
  case (Cons a as)
  show ?thesis
  proof (cases a)
    case Nil
    with Cons show ?thesis by (simp add: np_median_axis0_def shape_def)
  next
    case (Cons r rs)
    with \<open>arrs = a # as\<close> show ?thesis
      by (simp add: np_median_axis0_def shape_def upt_conv_Cons del: upt_Suc)
  qed
qed

lemma np_median_axis0_elementwise:
  assumes "arrs \<noteq> []" and "list_all (\<lambda>b. shape b = shape (hd arrs)) arrs"
  shows "elementwise_median arrs (np_median_axis0 arrs)"
proof -
  obtain a as where arrs: "arrs = a # as" using assms(1) by (cases arrs) auto
  have len: "length (np_median_axis0 arrs) = length a"
    by (simp add: arrs np_median_axis0_def)
  have row: "np_median_axis0 arrs ! i =
               map (\<lambda>j. median (map (\<lambda>b. b ! i ! j) arrs)) [0..<length (a ! i)]"
    if "i < length a" for i
    using that by (simp add: arrs np_median_axis0_def)
  have "np_median_axis0 arrs ! i ! j = median (map (\<lambda>b. b ! i ! j) arrs)"
    if "i < length (np_median_axis0 arrs)" "j < length (np_median_axis0 arrs ! i)" for i j
    using that len row by simp
  moreover have "list_all (\<lambda>b. shape b = shape (np_median_axis0 arrs)) arrs"
    using assms by (simp add: shape_np_median_axis0)
  ultimately show ?thesis
    using assms(1) by (simp add: elementwise_median_def)
qed

lemma median_windows_set:
  "median_windows cs items = Inr items' \<Longrightarrow> (wnam, ow) \<in> set items' \<Longrightarrow>
   window_is_median cs wnam ow"
proof (induction items arbitrary: items')
  case Nil
  then show ?case by simp
next
  case (Cons item items)
  obtain wn wind where item: "item = (wn, wind)" by (cases item)
  from Cons.prems(1) item obtain arrs arr3d rest where
    arrs: "get_arrs wn cs = Inr arrs" and stack: "np_stack arrs = Inr arr3d" and
    rest: "median_windows cs items = Inr rest" and
    items': "items' = (wn, wind\<lparr>data := np_median_axis0 arr3d\<rparr>) # rest"
    by (auto split: sum.splits)
  show ?case
  proof (cases "(wnam, ow) \<in> set rest")
    case True
    from Cons.IH [OF rest this] show ?thesis .
  next
    case False
    with Cons.prems(2) items' have ow: "wnam = wn" "data ow = np_median_axis0 arr3d" by auto
    from get_arrs_Inr [OF arrs] obtain ws where
      ws: "map (\<lambda>c. map_of (windows c) wn) cs = map Some ws" "arrs = map data ws" by blast
    from np_stack_Inr [OF stack] have "elementwise_median arrs (np_median_axis0 arr3d)"
      using np_median_axis0_elementwise [of arrs] by simp
    with ws ow show ?thesis by (auto simp: window_is_median_def)
  qed
qed

lemma median_windows_layout:
  "median_windows cs items = Inr items' \<Longrightarrow>
   map (\<lambda>(wnam, w). (wnam, llx w, lly w)) items' = map (\<lambda>(wnam, w). (wnam, llx w, lly w)) items"
  by (induction items arbitrary: items') (auto split: sum.splits)

lemma median_ccds_set:
  "median_ccds ccds t = Inr out \<Longrightarrow> (cnam, oc) \<in> set out \<Longrightarrow>
   \<exists>tc cs. (cnam, tc) \<in> set t \<and> ccds cnam = Some cs \<and>
           median_windows cs (windows tc) = Inr (windows oc)"
proof (induction t arbitrary: out)
  case Nil
  then show ?case by simp
next
  case (Cons item t)
  obtain cn tccd where item: "item = (cn, tccd)" by (cases item)
  from Cons.prems(1) item obtain cs ws rest where
    cs: "ccds cn = Some cs" and ws: "median_windows cs (windows tccd) = Inr ws" and
    rest: "median_ccds ccds t = Inr rest" and out: "out = (cn, tccd\<lparr>windows := ws\<rparr>) # rest"
    by (auto split: option.splits sum.splits)
  show ?case
  proof (cases "(cnam, oc) \<in> set rest")
    case True
    from Cons.IH [OF rest this] show ?thesis by auto
  next
    case False
    with Cons.prems(2) out have "cnam = cn" "windows oc = ws" by auto
    with cs ws item show ?thesis by auto
  qed
qed

lemma median_ccds_layout: "median_ccds ccds t = Inr out \<Longrightarrow> layout out = layout t"
  by (induction t arbitrary: out)
     (auto simp: layout_def median_windows_layout split: option.splits sum.splits)

section \<open>Properties of \<open>averun\<close>\<close>

lemma averun_median_Inr:
  assumes "averun_median crop isub cl spool = Inr out"
  shows "\<exists>template ccds. averun_ccds crop isub cl spool = Inr (template, ccds) \<and>
           check_ccds ccds (map fst template) = Inr () \<and> median_ccds ccds template = Inr out"
  using assms by (auto simp: averun_median_def split: sum.splits prod.splits)

lemma averun_reads_frames:
  assumes "averun_template cl spool = Inr (map Frame frames, template)"
  shows "fst (averun_read cl spool) = map Frame frames \<and> frames \<noteq> [] \<and> last frames = template"
proof -
  from assms have rd: "averun_read cl spool = (map Frame frames, Some (Frame template), None)"
    and ne: "frames \<noteq> []"
    by (simp_all add: averun_template_Inr)
  from averun_read_var [OF rd] ne have "last frames = template"
    by (simp add: last_map)
  with rd ne show ?thesis by simp
qed


section \<open>Evaluating \<open>averun\<close> on the example frames\<close>

lemmas example_defs =
  example_cline_def example_frame_def example_ccd_def example_write_def

lemmas averun_defs =
  averun_def averun_median_def averun_ccds_def averun_template_def averun_read_def
  server_or_local_def endswith_def hang_about_def crop_bias_def empty_buffers_def sub_bias_def



section \<open>The template of \<open>averun\<close>\<close>

text \<open>
  C2, as the claim states it, fails: the template is not the first frame read. Line 174
  copies the loop variable, which holds the frame read last. With two frames, of which
  only the first has data in CCD \<open>2\<close>, the output is built on the second: its CCD \<open>2\<close>
  carries the flag of the blank frame, over the pixels of the first.
\<close>

theorem averun_template_not_first_counterexample:
  "averun_template (example_cline ''ul'' 2)
     [Frame (example_frame [[1, 2], [3, 4]] True [[1, 1], [1, 1]]),
      Frame (example_frame [[5, 0], [3, 9]] False [[7, 7], [7, 7]])]
   = Inr ([Frame (example_frame [[1, 2], [3, 4]] True [[1, 1], [1, 1]]),
           Frame (example_frame [[5, 0], [3, 9]] False [[7, 7], [7, 7]])],
          example_frame [[5, 0], [3, 9]] False [[7, 7], [7, 7]])
   \<and> averun_median (\<lambda>b t. Inr b) (\<lambda>c b. Inr c) (example_cline ''ul'' 2)
     [Frame (example_frame [[1, 2], [3, 4]] True [[1, 1], [1, 1]]),
      Frame (example_frame [[5, 0], [3, 9]] False [[7, 7], [7, 7]])]
   = Inr (example_frame [[3, 1], [3, 13 / 2]] False [[1, 1], [1, 1]])
   \<and> layout (example_frame [[3, 1], [3, 13 / 2]] False [[1, 1], [1, 1]])
     \<noteq> layout (example_frame [[1, 2], [3, 4]] True [[1, 1], [1, 1]])"
  by (simp add: averun_defs example_defs layout_def np_stack_def shape_def
        np_median_axis0_def median_def upt_rec)

text \<open>
  C2, amended. In every run of \<open>averun\<close> that gets its template at line 174, at least
  one frame has been read and the template is a copy of the frame read last, the one
  the loop variable holds when the loop is left. The frame that is written has the
  layout of that frame: its CCDs, their flags, and the labels and origins of their
  windows.
\<close>

theorem averun_template_is_last_frame:
  "(averun_template cl spool = Inr (mccds, template) \<longrightarrow>
      fst (averun_read cl spool) = mccds \<and> mccds \<noteq> [] \<and> last mccds = Frame template)
   \<and> (averun_median crop isub cl spool = Inr out \<longrightarrow>
      (\<exists>frames. fst (averun_read cl spool) = map Frame frames \<and> frames \<noteq> [] \<and>
         layout out = layout (last frames)))"
proof (intro conjI impI)
  assume t: "averun_template cl spool = Inr (mccds, template)"
  then have rd: "averun_read cl spool = (mccds, Some (Frame template), None)"
    by (simp add: averun_template_Inr)
  from rd show "fst (averun_read cl spool) = mccds" by simp
  from averun_read_var [OF rd] show "mccds \<noteq> []" and "last mccds = Frame template"
    by simp_all
next
  assume "averun_median crop isub cl spool = Inr out"
  from averun_median_Inr [OF this] obtain template ccds where
    c: "averun_ccds crop isub cl spool = Inr (template, ccds)" and
    m: "median_ccds ccds template = Inr out"
    by blast
  from averun_ccds_buffers [OF c] obtain frames where
    "averun_template cl spool = Inr (map Frame frames, template)" by blast
  from averun_reads_frames [OF this] median_ccds_layout [OF m]
  show "\<exists>frames. fst (averun_read cl spool) = map Frame frames \<and> frames \<noteq> [] \<and>
         layout out = layout (last frames)"
    by auto
qed

theorem averun_template_is_last_frame_witness:
  "last [Frame (example_frame [[1, 2], [3, 4]] True [[1, 1], [1, 1]]),
         Frame (example_frame [[5, 0], [3, 9]] False [[7, 7], [7, 7]])]
   = Frame (example_frame [[5, 0], [3, 9]] False [[7, 7], [7, 7]])
   \<and> (\<exists>frames.
        fst (averun_read (example_cline ''ul'' 2)
          [Frame (example_frame [[1, 2], [3, 4]] True [[1, 1], [1, 1]]),
           Frame (example_frame [[5, 0], [3, 9]] False [[7, 7], [7, 7]])]) = map Frame frames
        \<and> frames \<noteq> []
        \<and> layout (example_frame [[3, 1], [3, 13 / 2]] False [[1, 1], [1, 1]])
            = layout (last frames))"
proof -
  let ?fA = "example_frame [[1, 2], [3, 4]] True [[1, 1], [1, 1]]"
  let ?fB = "example_frame [[5, 0], [3, 9]] False [[7, 7], [7, 7]]"
  have t: "averun_template (example_cline ''ul'' 2) [Frame ?fA, Frame ?fB]
             = Inr ([Frame ?fA, Frame ?fB], ?fB)"
    by (simp add: averun_defs example_defs)
  have m: "averun_median (\<lambda>b t. Inr b) (\<lambda>c b. Inr c) (example_cline ''ul'' 2)
             [Frame ?fA, Frame ?fB]
           = Inr (example_frame [[3, 1], [3, 13 / 2]] False [[1, 1], [1, 1]])"
    by (simp add: averun_defs example_defs np_stack_def shape_def
          np_median_axis0_def median_def upt_rec)
  from averun_template_is_last_frame
         [of "example_cline ''ul'' 2" "[Frame ?fA, Frame ?fB]" "[Frame ?fA, Frame ?fB]" ?fB
             "\<lambda>b t. Inr b" "\<lambda>c b. Inr c"
             "example_frame [[3, 1], [3, 13 / 2]] False [[1, 1], [1, 1]]"]
       t m
  show ?thesis by blast
qed

section \<open>The combination sets and the output of \<open>averun\<close>\<close>

lemma map_Frame_inject: "map Frame xs = map Frame ys \<Longrightarrow> xs = ys"
  by (simp add: inj_map_eq_map inj_on_def)

text \<open>
  In a frame, whose labels are distinct, the valid CCDs of a label are the CCD of that
  label if its own flag is set, whatever the flags of the other CCDs of the frame, and
  without bias the combination set is the list of these over the frames.
\<close>

lemma valid_ccds_distinct:
  "distinct (map fst m) \<Longrightarrow>
   valid_ccds cnam m =
     (case map_of m cnam of None \<Rightarrow> [] | Some c \<Rightarrow> if is_data c then [c] else [])"
proof (induction m)
  case Nil
  then show ?case by (simp add: valid_ccds_def)
next
  case (Cons item m)
  obtain k c where item: "item = (k, c)" by (cases item)
  show ?case
  proof (cases "k = cnam")
    case True
    with Cons.prems item have "map_of m cnam = None"
      by (simp add: map_of_eq_None_iff)
    with Cons item True show ?thesis by (simp add: valid_ccds_def)
  next
    case False
    with Cons item show ?thesis by (simp add: valid_ccds_def)
  qed
qed

text \<open>
  C6. Let a run of \<open>averun\<close> have filled its buffers from the frames read. Then the
  buffer of every CCD label of the template is the combination set of that label: the
  CCDs of that label with \<open>is_data()\<close> true, in the order of the frames, each after the
  bias subtraction if there is a bias. A CCD with \<open>is_data()\<close> false is in no buffer,
  and the flag of one CCD decides nothing for the other CCDs of its frame. If the run
  goes on to the output, the windows of every CCD of the output are the medians that
  lines 204 to 208 compute over that set, which is not empty.
\<close>

theorem averun_combines_valid_ccds:
  assumes "averun_ccds crop isub cl spool = Inr (template, ccds)"
  shows "\<exists>frames bias.
           fst (averun_read cl spool) = map Frame frames \<and>
           crop_bias crop (p_bias cl) template = Inr bias \<and>
           (\<forall>cnam \<in> set (map fst template).
              \<exists>cs. ccds cnam = Some cs \<and> combination_set isub bias cnam frames cs) \<and>
           (\<forall>out. averun_median crop isub cl spool = Inr out \<longrightarrow>
              (\<forall>(cnam, oc) \<in> set out.
                 \<exists>tc cs. (cnam, tc) \<in> set template \<and>
                   combination_set isub bias cnam frames cs \<and> cs \<noteq> [] \<and>
                   median_windows cs (windows tc) = Inr (windows oc)))"
proof -
  from averun_ccds_buffers [OF assms] obtain frames bias where
    t: "averun_template cl spool = Inr (map Frame frames, template)" and
    b: "crop_bias crop (p_bias cl) template = Inr bias" and
    buf: "\<And>c. if c \<in> fst ` set template
              then \<exists>cs. ccds c = Some cs \<and> combination_set isub bias c frames cs
              else ccds c = None"
    by blast
  have rd: "fst (averun_read cl spool) = map Frame frames"
    using averun_reads_frames [OF t] by simp
  have sets: "\<exists>cs. ccds cnam = Some cs \<and> combination_set isub bias cnam frames cs"
    if "cnam \<in> set (map fst template)" for cnam
    using buf [of cnam] that by simp
  have outs: "\<exists>tc cs. (cnam, tc) \<in> set template \<and>
       combination_set isub bias cnam frames cs \<and> cs \<noteq> [] \<and>
       median_windows cs (windows tc) = Inr (windows oc)"
    if out: "averun_median crop isub cl spool = Inr out" and oc: "(cnam, oc) \<in> set out"
    for out cnam oc
  proof -
    from averun_median_Inr [OF out] assms have
      chk: "check_ccds ccds (map fst template) = Inr ()" and
      med: "median_ccds ccds template = Inr out"
      by auto
    from median_ccds_set [OF med oc] obtain tc cs where
      tc: "(cnam, tc) \<in> set template" and cs: "ccds cnam = Some cs" and
      ws: "median_windows cs (windows tc) = Inr (windows oc)"
      by blast
    from tc have lab: "cnam \<in> set (map fst template)" by force
    from sets [OF lab] cs have "combination_set isub bias cnam frames cs" by simp
    moreover from check_ccds_Inr [OF chk lab] cs have "cs \<noteq> []" by simp
    ultimately show ?thesis using tc ws by blast
  qed
  from rd b sets outs show ?thesis by blast
qed


text \<open>
  Three frames with CCD \<open>2\<close> blank in the second: the buffer of CCD \<open>1\<close> holds three
  CCDs, that of CCD \<open>2\<close> those of the first and the third frame, and the output for CCD
  \<open>2\<close> is the average of the two.
\<close>

theorem averun_combines_valid_ccds_witness:
  "(\<exists>ccds.
      averun_ccds (\<lambda>b t. Inr b) (\<lambda>c b. Inr c) (example_cline ''ul'' 3)
        [Frame (example_frame [[1, 2], [3, 4]] True [[1, 1], [1, 1]]),
         Frame (example_frame [[5, 0], [3, 9]] False [[7, 7], [7, 7]]),
         Frame (example_frame [[2, 8], [3, 1]] True [[2, 4], [6, 8]])]
        = Inr (example_frame [[2, 8], [3, 1]] True [[2, 4], [6, 8]], ccds) \<and>
      ccds ''1'' = Some [example_ccd True [[1, 2], [3, 4]], example_ccd True [[5, 0], [3, 9]],
                         example_ccd True [[2, 8], [3, 1]]] \<and>
      ccds ''2'' = Some [example_ccd True [[1, 1], [1, 1]], example_ccd True [[2, 4], [6, 8]]])
   \<and> averun_median (\<lambda>b t. Inr b) (\<lambda>c b. Inr c) (example_cline ''ul'' 3)
        [Frame (example_frame [[1, 2], [3, 4]] True [[1, 1], [1, 1]]),
         Frame (example_frame [[5, 0], [3, 9]] False [[7, 7], [7, 7]]),
         Frame (example_frame [[2, 8], [3, 1]] True [[2, 4], [6, 8]])]
        = Inr (example_frame [[2, 2], [3, 4]] True [[3 / 2, 5 / 2], [7 / 2, 9 / 2]])"
proof -
  let ?f1 = "example_frame [[1, 2], [3, 4]] True [[1, 1], [1, 1]]"
  let ?f2 = "example_frame [[5, 0], [3, 9]] False [[7, 7], [7, 7]]"
  let ?f3 = "example_frame [[2, 8], [3, 1]] True [[2, 4], [6, 8]]"
  let ?run = "averun_ccds (\<lambda>b t. Inr b) (\<lambda>c b. Inr c) (example_cline ''ul'' 3)
                [Frame ?f1, Frame ?f2, Frame ?f3]"
  have "\<exists>ccds. ?run = Inr (?f3, ccds)"
    by (simp add: averun_defs example_defs)
  then obtain ccds where run: "?run = Inr (?f3, ccds)" ..
  from averun_combines_valid_ccds [OF run] obtain frames bias where
    rd: "fst (averun_read (example_cline ''ul'' 3) [Frame ?f1, Frame ?f2, Frame ?f3])
           = map Frame frames" and
    b: "crop_bias (\<lambda>b t. Inr b) (p_bias (example_cline ''ul'' 3)) ?f3 = Inr bias" and
    sets: "\<forall>cnam \<in> set (map fst ?f3).
             \<exists>cs. ccds cnam = Some cs \<and> combination_set (\<lambda>c b. Inr c) bias cnam frames cs"
    by blast
  have "map Frame frames = map Frame [?f1, ?f2, ?f3]"
    using rd by (simp add: averun_defs example_cline_def)
  then have frames: "frames = [?f1, ?f2, ?f3]"
    by (rule map_Frame_inject)
  have bias: "bias = None"
    using b by (simp add: crop_bias_def example_cline_def)
  have "ccds ''1'' = Some (concat (map (valid_ccds ''1'') [?f1, ?f2, ?f3]))"
    and "ccds ''2'' = Some (concat (map (valid_ccds ''2'') [?f1, ?f2, ?f3]))"
    using sets by (auto simp: frames bias combination_set_no_bias example_frame_def)
  then have "ccds ''1'' = Some [example_ccd True [[1, 2], [3, 4]],
        example_ccd True [[5, 0], [3, 9]], example_ccd True [[2, 8], [3, 1]]]"
    and "ccds ''2'' = Some [example_ccd True [[1, 1], [1, 1]], example_ccd True [[2, 4], [6, 8]]]"
    by (simp_all add: valid_ccds_def example_defs)
  moreover have "averun_median (\<lambda>b t. Inr b) (\<lambda>c b. Inr c) (example_cline ''ul'' 3)
        [Frame ?f1, Frame ?f2, Frame ?f3]
        = Inr (example_frame [[2, 2], [3, 4]] True [[3 / 2, 5 / 2], [7 / 2, 9 / 2]])"
    by (simp add: averun_defs example_defs np_stack_def shape_def
          np_median_axis0_def median_def upt_rec)
  ultimately show ?thesis using run by blast
qed

text \<open>
  C1. Whenever \<open>averun\<close> comes to write its output, having read one frame or more,
  what it hands to \<open>write\<close> is this: every window of every CCD holds, element by
  element, the median over the stack of the windows of its label in the combination set
  of its CCD, all of the shape of the window. The median is the middle value of the
  sorted stack, or the average of the two middle values when their number is even.
\<close>

theorem averun_output_is_median:
  assumes "averun_median crop isub cl spool = Inr out"
  shows "averun crop isub write cl spool fs = write out (p_output cl) (p_clobber cl) fs \<and>
         (\<exists>frames bias.
            fst (averun_read cl spool) = map Frame frames \<and> frames \<noteq> [] \<and>
            crop_bias crop (p_bias cl) (last frames) = Inr bias \<and>
            median_of_frames isub bias frames out)"
proof -
  from averun_median_Inr [OF assms] obtain template ccds where
    c: "averun_ccds crop isub cl spool = Inr (template, ccds)" and
    med: "median_ccds ccds template = Inr out"
    by blast
  from averun_ccds_buffers [OF c] obtain frames bias where
    t: "averun_template cl spool = Inr (map Frame frames, template)" and
    b: "crop_bias crop (p_bias cl) template = Inr bias" and
    buf: "\<And>c. if c \<in> fst ` set template
              then \<exists>cs. ccds c = Some cs \<and> combination_set isub bias c frames cs
              else ccds c = None"
    by blast
  have "\<exists>cs. combination_set isub bias cnam frames cs \<and> window_is_median cs wnam ow"
    if oc: "(cnam, oc) \<in> set out" and ow: "(wnam, ow) \<in> set (windows oc)"
    for cnam oc wnam ow
  proof -
    from median_ccds_set [OF med oc] obtain tc cs where
      tc: "(cnam, tc) \<in> set template" and cs: "ccds cnam = Some cs" and
      ws: "median_windows cs (windows tc) = Inr (windows oc)"
      by blast
    from tc have "cnam \<in> fst ` set template" by force
    with buf [of cnam] cs have "combination_set isub bias cnam frames cs" by simp
    with median_windows_set [OF ws ow] show ?thesis by blast
  qed
  then have "median_of_frames isub bias frames out"
    unfolding median_of_frames_def by blast
  moreover have "averun crop isub write cl spool fs =
      write out (p_output cl) (p_clobber cl) fs"
    using assms by (simp add: averun_def)
  ultimately show ?thesis
    using averun_reads_frames [OF t] b by blast
qed

text \<open>
  Three frames of two by two pixels, every CCD valid: the pixel \<open>(0, 0)\<close> of CCD \<open>1\<close>
  is the median 2 of 1, 5 and 2, and so on.
\<close>

theorem averun_output_is_median_witness:
  "averun (\<lambda>b t. Inr b) (\<lambda>c b. Inr c) example_write (example_cline ''ul'' 3)
     [Frame (example_frame [[1, 2], [3, 4]] True [[1, 1], [1, 1]]),
      Frame (example_frame [[5, 0], [3, 9]] True [[7, 7], [7, 7]]),
      Frame (example_frame [[2, 8], [3, 1]] True [[2, 4], [6, 8]])] Map.empty
   = (Inr (), [''hcam'' \<mapsto> example_frame [[2, 2], [3, 4]] True [[2, 4], [6, 7]]])
   \<and> median_of_frames (\<lambda>c b. Inr c) None
       [example_frame [[1, 2], [3, 4]] True [[1, 1], [1, 1]],
        example_frame [[5, 0], [3, 9]] True [[7, 7], [7, 7]],
        example_frame [[2, 8], [3, 1]] True [[2, 4], [6, 8]]]
       (example_frame [[2, 2], [3, 4]] True [[2, 4], [6, 7]])"
proof -
  let ?f1 = "example_frame [[1, 2], [3, 4]] True [[1, 1], [1, 1]]"
  let ?f2 = "example_frame [[5, 0], [3, 9]] True [[7, 7], [7, 7]]"
  let ?f3 = "example_frame [[2, 8], [3, 1]] True [[2, 4], [6, 8]]"
  let ?out = "example_frame [[2, 2], [3, 4]] True [[2, 4], [6, 7]]"
  have m: "averun_median (\<lambda>b t. Inr b) (\<lambda>c b. Inr c) (example_cline ''ul'' 3)
             [Frame ?f1, Frame ?f2, Frame ?f3] = Inr ?out"
    by (simp add: averun_defs example_defs np_stack_def shape_def
          np_median_axis0_def median_def upt_rec)
  from averun_output_is_median [OF m, of example_write Map.empty] obtain frames bias where
    w: "averun (\<lambda>b t. Inr b) (\<lambda>c b. Inr c) example_write (example_cline ''ul'' 3)
          [Frame ?f1, Frame ?f2, Frame ?f3] Map.empty
        = example_write ?out (p_output (example_cline ''ul'' 3))
            (p_clobber (example_cline ''ul'' 3)) Map.empty" and
    rd: "fst (averun_read (example_cline ''ul'' 3) [Frame ?f1, Frame ?f2, Frame ?f3])
           = map Frame frames" and
    b: "crop_bias (\<lambda>b t. Inr b) (p_bias (example_cline ''ul'' 3)) (last frames) = Inr bias" and
    mof: "median_of_frames (\<lambda>c b. Inr c) bias frames ?out"
    by blast
  have "map Frame frames = map Frame [?f1, ?f2, ?f3]"
    using rd by (simp add: averun_defs example_cline_def)
  then have frames: "frames = [?f1, ?f2, ?f3]"
    by (rule map_Frame_inject)
  have bias: "bias = None"
    using b by (simp add: crop_bias_def example_cline_def)
  from w have "averun (\<lambda>b t. Inr b) (\<lambda>c b. Inr c) example_write (example_cline ''ul'' 3)
          [Frame ?f1, Frame ?f2, Frame ?f3] Map.empty = (Inr (), [''hcam'' \<mapsto> ?out])"
    by (simp add: example_write_def example_cline_def)
  with mof frames bias show ?thesis by simp
qed

section \<open>Runs of \<open>averun\<close> that come to the write\<close>

lemma add_items_ok:
  "\<forall>(k, c) \<in> set items. ccds k \<noteq> None \<Longrightarrow> \<exists>ccds'. add_items isub None ccds items = Inr ccds'"
proof (induction items arbitrary: ccds)
  case Nil
  then show ?case by simp
next
  case (Cons item items)
  obtain k c where item: "item = (k, c)" by (cases item)
  with Cons.prems obtain l where l: "ccds k = Some l" by auto
  show ?case
  proof (cases "is_data c")
    case True
    have "\<forall>(k', c') \<in> set items. (ccds(k \<mapsto> l @ [c])) k' \<noteq> None"
      using Cons.prems by auto
    from Cons.IH [OF this] obtain ccds' where
      "add_items isub None (ccds(k \<mapsto> l @ [c])) items = Inr ccds'" ..
    with True item l have "add_items isub None ccds (item # items) = Inr ccds'"
      by (simp add: sub_bias_def)
    then show ?thesis by blast
  next
    case False
    from Cons.prems have "\<forall>(k', c') \<in> set items. ccds k' \<noteq> None" by simp
    from Cons.IH [OF this] False item show ?thesis by simp
  qed
qed

lemma add_frames_ok:
  "\<forall>m \<in> set frames. \<forall>(k, c) \<in> set m. ccds k \<noteq> None \<Longrightarrow>
   \<exists>ccds'. add_frames isub None ccds (map Frame frames) = Inr ccds'"
proof (induction frames arbitrary: ccds)
  case Nil
  then show ?case by simp
next
  case (Cons m frames)
  then have "\<forall>(k, c) \<in> set m. ccds k \<noteq> None" by simp
  from add_items_ok [OF this] obtain ccds1 where
    first: "add_items isub None ccds m = Inr ccds1" by blast
  have "ccds1 k \<noteq> None" if "ccds k \<noteq> None" for k
    using add_items_buffers [OF first, of k] that by auto
  with Cons.prems have "\<forall>m \<in> set frames. \<forall>(k, c) \<in> set m. ccds1 k \<noteq> None" by fastforce
  from Cons.IH [OF this] first show ?case by simp
qed

lemma get_arrs_ok:
  "\<forall>c \<in> set cs. \<exists>w. map_of (windows c) wnam = Some w \<and> shape (data w) = s \<Longrightarrow>
   \<exists>arrs. get_arrs wnam cs = Inr arrs \<and> length arrs = length cs \<and>
          (\<forall>a \<in> set arrs. shape a = s)"
proof (induction cs)
  case Nil
  then show ?case by simp
next
  case (Cons c cs)
  then obtain w where "map_of (windows c) wnam = Some w" "shape (data w) = s" by auto
  moreover from Cons obtain arrs where "get_arrs wnam cs = Inr arrs"
    "length arrs = length cs" "\<forall>a \<in> set arrs. shape a = s" by auto
  ultimately show ?case by simp
qed

lemma np_stack_ok: "arrs \<noteq> [] \<Longrightarrow> \<forall>a \<in> set arrs. shape a = s \<Longrightarrow> np_stack arrs = Inr arrs"
  by (cases arrs) (auto simp: np_stack_def list_all_iff)

lemma window_shapes_lookup:
  "map_of (window_shapes c) wnam = map_option (\<lambda>w. shape (data w)) (map_of (windows c) wnam)"
  unfolding window_shapes_def by (induction "windows c" arbitrary: c) (auto simp: map_of_map)


lemma check_ccds_ok:
  "\<forall>c \<in> set cnams. \<exists>l. ccds c = Some l \<and> l \<noteq> [] \<Longrightarrow> check_ccds ccds cnams = Inr ()"
  by (induction cnams) auto

lemma median_windows_ok:
  assumes "cs \<noteq> []" and "\<forall>c \<in> set cs. window_shapes c = ws0"
    and "\<forall>(wnam, wind) \<in> set items. wnam \<in> fst ` set ws0"
  shows "\<exists>items'. median_windows cs items = Inr items'"
  using assms(3)
proof (induction items)
  case Nil
  then show ?case by simp
next
  case (Cons item items)
  obtain wnam wind where item: "item = (wnam, wind)" by (cases item)
  with Cons.prems have "wnam \<in> fst ` set ws0" by simp
  then obtain s where s: "map_of ws0 wnam = Some s"
    by (cases "map_of ws0 wnam") (auto simp: map_of_eq_None_iff)
  have "\<exists>w. map_of (windows c) wnam = Some w \<and> shape (data w) = s" if "c \<in> set cs" for c
  proof -
    have "map_option (\<lambda>w. shape (data w)) (map_of (windows c) wnam) = Some s"
      using window_shapes_lookup [of c wnam] assms(2) that s by simp
    then show ?thesis by (cases "map_of (windows c) wnam") auto
  qed
  then have "\<forall>c \<in> set cs. \<exists>w. map_of (windows c) wnam = Some w \<and> shape (data w) = s"
    by blast
  from get_arrs_ok [OF this] obtain arrs where
    arrs: "get_arrs wnam cs = Inr arrs" "length arrs = length cs" "\<forall>a \<in> set arrs. shape a = s"
    by blast
  from arrs(2) assms(1) have "arrs \<noteq> []" by auto
  from np_stack_ok [OF this arrs(3)] have stack: "np_stack arrs = Inr arrs" .
  from Cons.prems have "\<forall>(wnam, wind) \<in> set items. wnam \<in> fst ` set ws0" by simp
  from Cons.IH [OF this] obtain items' where "median_windows cs items = Inr items'" ..
  with item arrs(1) stack show ?case by simp
qed

lemma median_ccds_ok:
  assumes "\<forall>(cnam, tc) \<in> set t.
             \<exists>cs. ccds cnam = Some cs \<and> cs \<noteq> [] \<and>
                  (\<forall>c \<in> set cs. window_shapes c = window_shapes tc)"
  shows "\<exists>out. median_ccds ccds t = Inr out"
  using assms
proof (induction t)
  case Nil
  then show ?case by simp
next
  case (Cons item t)
  obtain cnam tc where item: "item = (cnam, tc)" by (cases item)
  with Cons.prems obtain cs where cs: "ccds cnam = Some cs" "cs \<noteq> []"
    "\<forall>c \<in> set cs. window_shapes c = window_shapes tc" by auto
  have "\<forall>(wnam, wind) \<in> set (windows tc). wnam \<in> fst ` set (window_shapes tc)"
    by (force simp: window_shapes_def)
  from median_windows_ok [OF cs(2,3) this] obtain ws where
    ws: "median_windows cs (windows tc) = Inr ws" ..
  from Cons.prems have "\<forall>(cnam, tc) \<in> set t.
      \<exists>cs. ccds cnam = Some cs \<and> cs \<noteq> [] \<and> (\<forall>c \<in> set cs. window_shapes c = window_shapes tc)"
    by simp
  from Cons.IH [OF this] obtain out where "median_ccds ccds t = Inr out" ..
  with item cs(1) ws show ?case by simp
qed

lemma valid_ccds_member: "c \<in> set (valid_ccds cnam m) \<Longrightarrow> (cnam, c) \<in> set m"
  by (auto simp: valid_ccds_def)

text \<open>
  The run does come to the write where the claims expect it to: when the loop has left a
  frame in the loop variable, there is no bias, the frames read have the geometry of
  the template, and every CCD of the template has a valid frame.
\<close>

lemma averun_median_succeeds:
  assumes t: "averun_template cl spool = Inr (map Frame frames, template)"
    and nobias: "p_bias cl = None"
    and dist: "distinct (map fst template)"
    and geo: "\<forall>m \<in> set frames. geometry m = geometry template"
    and valid: "\<forall>cnam \<in> set (map fst template). concat (map (valid_ccds cnam) frames) \<noteq> []"
  shows "\<exists>out. averun_median crop isub cl spool = Inr out"
proof -
  have labels: "map fst m = map fst template" if "m \<in> set frames" for m
  proof -
    have "map fst (geometry m) = map fst m" for m
      by (simp add: geometry_def case_prod_unfold comp_def)
    with geo that show ?thesis by metis
  qed
  have "empty_buffers template k \<noteq> None" if "m \<in> set frames" "(k, c) \<in> set m" for m k c
  proof -
    from that(2) have "k \<in> set (map fst m)" by force
    with labels [OF that(1)] have "k \<in> fst ` set template" by simp
    then show ?thesis by (simp add: empty_buffers_apply)
  qed
  then have "\<forall>m \<in> set frames. \<forall>(k, c) \<in> set m. empty_buffers template k \<noteq> None"
    by blast
  from add_frames_ok [OF this] obtain ccds where
    a: "add_frames isub None (empty_buffers template) (map Frame frames) = Inr ccds" ..
  have buf: "ccds cnam = Some (concat (map (valid_ccds cnam) frames))"
    if "cnam \<in> set (map fst template)" for cnam
    using add_frames_buffers [OF a, of cnam] that
    by (auto simp: empty_buffers_apply combination_set_no_bias)
  have c: "averun_ccds crop isub cl spool = Inr (template, ccds)"
    using t nobias a by (simp add: averun_ccds_def crop_bias_def)
  have chk: "check_ccds ccds (map fst template) = Inr ()"
    using buf valid by (intro check_ccds_ok) auto
  have "\<exists>cs. ccds cnam = Some cs \<and> cs \<noteq> [] \<and> (\<forall>c \<in> set cs. window_shapes c = window_shapes tc)"
    if tc: "(cnam, tc) \<in> set template" for cnam tc
  proof -
    from tc have lab: "cnam \<in> set (map fst template)" by force
    have "window_shapes c = window_shapes tc"
      if "c \<in> set (concat (map (valid_ccds cnam) frames))" for c
    proof -
      from that obtain m where m: "m \<in> set frames" "(cnam, c) \<in> set m"
        by (auto dest: valid_ccds_member)
      from m(2) have "(cnam, window_shapes c) \<in> set (geometry m)"
        by (force simp: geometry_def)
      with geo m(1) have "(cnam, window_shapes c) \<in> set (geometry template)" by simp
      moreover from tc have "(cnam, window_shapes tc) \<in> set (geometry template)"
        by (force simp: geometry_def)
      moreover have "distinct (map fst (geometry template))"
        using dist by (simp add: geometry_def case_prod_unfold comp_def)
      ultimately show ?thesis by (rule eq_key_imp_eq_value [rotated])
    qed
    with buf [OF lab] valid lab show ?thesis by auto
  qed
  then have "\<forall>(cnam, tc) \<in> set template.
      \<exists>cs. ccds cnam = Some cs \<and> cs \<noteq> [] \<and> (\<forall>c \<in> set cs. window_shapes c = window_shapes tc)"
    by blast
  from median_ccds_ok [OF this] obtain out where "median_ccds ccds template = Inr out" ..
  with c chk have "averun_median crop isub cl spool = Inr out"
    by (simp add: averun_median_def)
  then show ?thesis ..
qed

end
